theory Spec2Isabelle
  imports Complex_Main "HOL-Library.Word"
begin

section \<open>Scalars\<close>

text \<open>
  \<open>DefaultScalarType\<close> is the floating-point scalar of every dense matrix in
  \<open>eigen_embedding.hpp\<close>. The model keeps the special values of IEEE 754 (the two
  infinities and NaN) and their arithmetic, because the orthonormalisation loop divides
  by a norm that can be zero. A finite value is idealised as a real number: rounding of
  finite results, overflow to infinity and the sign of zero are not modelled (a zero
  divisor is taken as \<open>+0\<close>, which is what a norm can be).
\<close>

datatype DefaultScalarType = Fin real | PInf | NInf | NaN

fun s_neg :: "DefaultScalarType \<Rightarrow> DefaultScalarType" where
  "s_neg (Fin a) = Fin (- a)"
| "s_neg PInf = NInf"
| "s_neg NInf = PInf"
| "s_neg NaN = NaN"

fun s_add :: "DefaultScalarType \<Rightarrow> DefaultScalarType \<Rightarrow> DefaultScalarType" where
  "s_add (Fin a) (Fin b) = Fin (a + b)"
| "s_add (Fin a) PInf = PInf"
| "s_add (Fin a) NInf = NInf"
| "s_add PInf (Fin b) = PInf"
| "s_add NInf (Fin b) = NInf"
| "s_add PInf PInf = PInf"
| "s_add NInf NInf = NInf"
| "s_add PInf NInf = NaN"
| "s_add NInf PInf = NaN"
| "s_add NaN y = NaN"
| "s_add x NaN = NaN"

definition s_sub :: "DefaultScalarType \<Rightarrow> DefaultScalarType \<Rightarrow> DefaultScalarType" where
  "s_sub x y = s_add x (s_neg y)"

fun s_mul :: "DefaultScalarType \<Rightarrow> DefaultScalarType \<Rightarrow> DefaultScalarType" where
  "s_mul (Fin a) (Fin b) = Fin (a * b)"
| "s_mul (Fin a) PInf = (if a = 0 then NaN else if 0 < a then PInf else NInf)"
| "s_mul (Fin a) NInf = (if a = 0 then NaN else if 0 < a then NInf else PInf)"
| "s_mul PInf (Fin b) = (if b = 0 then NaN else if 0 < b then PInf else NInf)"
| "s_mul NInf (Fin b) = (if b = 0 then NaN else if 0 < b then NInf else PInf)"
| "s_mul PInf PInf = PInf"
| "s_mul NInf NInf = PInf"
| "s_mul PInf NInf = NInf"
| "s_mul NInf PInf = NInf"
| "s_mul NaN y = NaN"
| "s_mul x NaN = NaN"

fun s_div :: "DefaultScalarType \<Rightarrow> DefaultScalarType \<Rightarrow> DefaultScalarType" where
  "s_div (Fin a) (Fin b) =
     (if b = 0 then (if a = 0 then NaN else if 0 < a then PInf else NInf)
      else Fin (a / b))"
| "s_div (Fin a) PInf = Fin 0"
| "s_div (Fin a) NInf = Fin 0"
| "s_div PInf (Fin b) = (if 0 \<le> b then PInf else NInf)"
| "s_div NInf (Fin b) = (if 0 \<le> b then NInf else PInf)"
| "s_div PInf PInf = NaN"
| "s_div NInf NInf = NaN"
| "s_div PInf NInf = NaN"
| "s_div NInf PInf = NaN"
| "s_div NaN y = NaN"
| "s_div x NaN = NaN"

text \<open>The comparison \<open>x < y\<close>: false as soon as one side is NaN.\<close>

fun s_less :: "DefaultScalarType \<Rightarrow> DefaultScalarType \<Rightarrow> bool" where
  "s_less (Fin a) (Fin b) = (a < b)"
| "s_less (Fin a) PInf = True"
| "s_less NInf (Fin b) = True"
| "s_less NInf PInf = True"
| "s_less x y = False"

fun s_sqrt :: "DefaultScalarType \<Rightarrow> DefaultScalarType" where
  "s_sqrt (Fin a) = (if a < 0 then NaN else Fin (sqrt a))"
| "s_sqrt PInf = PInf"
| "s_sqrt NInf = NaN"
| "s_sqrt NaN = NaN"

fun s_log :: "DefaultScalarType \<Rightarrow> DefaultScalarType" where
  "s_log (Fin a) = (if a < 0 then NaN else if a = 0 then NInf else Fin (ln a))"
| "s_log PInf = PInf"
| "s_log NInf = NaN"
| "s_log NaN = NaN"

fun s_cos :: "DefaultScalarType \<Rightarrow> DefaultScalarType" where
  "s_cos (Fin a) = Fin (cos a)"
| "s_cos x = NaN"

fun s_sin :: "DefaultScalarType \<Rightarrow> DefaultScalarType" where
  "s_sin (Fin a) = Fin (sin a)"
| "s_sin x = NaN"

section \<open>Dense vectors and matrices\<close>

type_synonym DenseVector = "DefaultScalarType list"

text \<open>
  A dense matrix in column-major order, as Eigen stores it: the number of rows and the
  list of columns, each a vector of that many coefficients.
\<close>

record DenseMatrix =
  rows :: nat
  columns :: "DenseVector list"

definition cols :: "DenseMatrix \<Rightarrow> nat" where
  "cols M = length (columns M)"

definition well_shaped :: "DenseMatrix \<Rightarrow> bool" where
  "well_shaped M = list_all (\<lambda>c. length c = rows M) (columns M)"

text \<open>\<open>a.dot(b)\<close>, \<open>a.norm()\<close>, \<open>r * a\<close> and \<open>a - b\<close> on vectors.\<close>

definition dot :: "DenseVector \<Rightarrow> DenseVector \<Rightarrow> DefaultScalarType" where
  "dot a b = foldl s_add (Fin 0) (map2 s_mul a b)"

definition norm_v :: "DenseVector \<Rightarrow> DefaultScalarType" where
  "norm_v a = s_sqrt (dot a a)"

definition scale_v :: "DefaultScalarType \<Rightarrow> DenseVector \<Rightarrow> DenseVector" where
  "scale_v r a = map (s_mul r) a"

definition sub_v :: "DenseVector \<Rightarrow> DenseVector \<Rightarrow> DenseVector" where
  "sub_v a b = map2 s_sub a b"

definition add_v :: "DenseVector \<Rightarrow> DenseVector \<Rightarrow> DenseVector" where
  "add_v a b = map2 s_add a b"

definition setZero :: "DenseVector \<Rightarrow> DenseVector" where
  "setZero a = replicate (length a) (Fin 0)"

text \<open>
  Eigen states the bounds of \<open>block\<close> and \<open>tail\<close> and the inner dimensions of a
  product as preconditions and checks them with \<open>eigen_assert\<close>. In a build that keeps
  the assertions a failed check aborts the program; under \<open>NDEBUG\<close> or
  \<open>EIGEN_NO_DEBUG\<close> the check is compiled out and Eigen leaves the behaviour open. The
  value \<open>EigenAssertFailed\<close> marks a violated precondition; what a program does after
  it depends on the build and is stated nowhere below. Within the bounds the three
  operations are exact.
\<close>

datatype error = EigenAssertFailed

text \<open>\<open>M.block(startRow, startCol, blockRows, blockCols)\<close>.\<close>

definition block ::
  "DenseMatrix \<Rightarrow> nat \<Rightarrow> nat \<Rightarrow> nat \<Rightarrow> nat \<Rightarrow> error + DenseMatrix" where
  "block M startRow startCol blockRows blockCols =
     (if startRow + blockRows \<le> rows M \<and> startCol + blockCols \<le> cols M
      then Inr \<lparr>rows = blockRows,
                columns = map (\<lambda>c. take blockRows (drop startRow c))
                              (take blockCols (drop startCol (columns M)))\<rparr>
      else Inl EigenAssertFailed)"

text \<open>\<open>v.tail(n)\<close>: the last \<open>n\<close> coefficients.\<close>

definition tail :: "DenseVector \<Rightarrow> nat \<Rightarrow> error + DenseVector" where
  "tail v n = (if n \<le> length v then Inr (drop (length v - n) v) else Inl EigenAssertFailed)"

text \<open>The linear combination \<open>\<Sum>k. e[k] * Y.col(k)\<close>, one column of a product.\<close>

definition lin_comb :: "nat \<Rightarrow> DenseVector list \<Rightarrow> DenseVector \<Rightarrow> DenseVector" where
  "lin_comb n ys e = foldl add_v (replicate n (Fin 0)) (map2 scale_v e ys)"

text \<open>The matrix product \<open>Y * E\<close>.\<close>

definition mat_mul :: "DenseMatrix \<Rightarrow> DenseMatrix \<Rightarrow> error + DenseMatrix" where
  "mat_mul Y E =
     (if cols Y = rows E
      then Inr \<lparr>rows = rows Y, columns = map (lin_comb (rows Y) (columns Y)) (columns E)\<rparr>
      else Inl EigenAssertFailed)"

section \<open>The result and the collaborators\<close>

text \<open>
  Modelled from the spec: the type \<open>EmbeddingResult\<close>, declared in \<open>defines.hpp\<close>
  (not among the sources): the eigenvectors, as the columns of a dense matrix, paired
  with the vector of their eigenvalues. \<open>EmbeddingResult()\<close> is the empty pair.
\<close>

record EmbeddingResult =
  eigenvectors :: DenseMatrix
  eigenvalues :: DenseVector

definition EmbeddingResult_empty :: EmbeddingResult where
  "EmbeddingResult_empty = \<lparr>eigenvectors = \<lparr>rows = 0, columns = []\<rparr>, eigenvalues = []\<rparr>"

text \<open>
  The method tag. The C++ enumeration has the three enumerators of the \<open>switch\<close>; any
  other value of the underlying integer type is \<open>UnknownMethod\<close>.
\<close>

datatype TAPKEE_EIGEN_EMBEDDING_METHOD =
  ARPACK | RANDOMIZED | EIGEN_DENSE_SELFADJOINT_SOLVER | UnknownMethod int

text \<open>
  What the file takes from outside: the build flag \<open>TAPKEE_NO_ARPACK\<close>, the C library's
  \<open>RAND_MAX\<close> and \<open>rand()\<close> (the value of its k-th call), the template parameters
  \<open>MatrixType\<close> (its \<open>rows()\<close>, \<open>cols()\<close> and its conversion to a dense matrix) and
  \<open>MatrixTypeOperation\<close> (\<open>operation(wm)(M)\<close>), the ARPACK wrapper (constructed from the
  matrix and the number of eigenpairs; its \<open>eigenvectors()\<close> and \<open>eigenvalues()\<close>),
  Eigen's dense self-adjoint solver (likewise) and Eigen's \<open>householderQr().solve\<close>.
\<close>

record 'wm collaborators =
  TAPKEE_NO_ARPACK :: bool
  RAND_MAX :: int
  rand :: "nat \<Rightarrow> int"
  wm_rows :: "'wm \<Rightarrow> nat"
  wm_cols :: "'wm \<Rightarrow> nat"
  to_dense :: "'wm \<Rightarrow> DenseMatrix"
  operation :: "'wm \<Rightarrow> DenseMatrix \<Rightarrow> DenseMatrix"
  ArpackGeneralizedSelfAdjointEigenSolver :: "'wm \<Rightarrow> nat \<Rightarrow> DenseMatrix \<times> DenseVector"
  DefaultDenseSelfAdjointEigenSolver :: "DenseMatrix \<Rightarrow> DenseMatrix \<times> DenseVector"
  householderQr_solve :: "DenseMatrix \<Rightarrow> DenseMatrix \<Rightarrow> DenseMatrix"

text \<open>
  The memory a call works on: the caller's weight matrix, passed by reference, and the
  state of the process-wide generator (how many times \<open>rand()\<close> has been called).
\<close>

record 'wm world =
  weight :: "'wm"
  rand_calls :: nat

section \<open>The sparse-iterative and the dense strategy\<close>

text \<open>\<open>eigen_embedding_impl<..., ARPACK>::embed\<close>\<close>

definition embed_ARPACK ::
  "'wm collaborators \<Rightarrow> 'wm world \<Rightarrow> 32 word \<Rightarrow> 32 word
   \<Rightarrow> (error + EmbeddingResult) \<times> 'wm world" where
  "embed_ARPACK env st target_dimension skip =
     (if TAPKEE_NO_ARPACK env then (Inr EmbeddingResult_empty, st)
      else
        let wm = weight st;
            arpack = ArpackGeneralizedSelfAdjointEigenSolver env wm
                       (unat (target_dimension + skip))
        in (case block (fst arpack) 0 (unat skip) (wm_cols env wm) (unat target_dimension) of
              Inl e \<Rightarrow> (Inl e, st)
            | Inr embedding_feature_matrix \<Rightarrow>
                (case tail (snd arpack) (unat target_dimension) of
                   Inl e \<Rightarrow> (Inl e, st)
                 | Inr vals \<Rightarrow>
                     (Inr \<lparr>eigenvectors = embedding_feature_matrix, eigenvalues = vals\<rparr>, st))))"

text \<open>\<open>eigen_embedding_impl<..., EIGEN_DENSE_SELFADJOINT_SOLVER>::embed\<close>\<close>

definition embed_EIGEN_DENSE_SELFADJOINT_SOLVER ::
  "'wm collaborators \<Rightarrow> 'wm world \<Rightarrow> 32 word \<Rightarrow> 32 word
   \<Rightarrow> (error + EmbeddingResult) \<times> 'wm world" where
  "embed_EIGEN_DENSE_SELFADJOINT_SOLVER env st target_dimension skip =
     (let wm = weight st;
          dense_wm = to_dense env wm;
          solver = DefaultDenseSelfAdjointEigenSolver env dense_wm
      in (case block (fst solver) 0 (unat skip) (wm_cols env wm) (unat target_dimension) of
            Inl e \<Rightarrow> (Inl e, st)
          | Inr embedding_feature_matrix \<Rightarrow>
              (case tail (snd solver) (unat target_dimension) of
                 Inl e \<Rightarrow> (Inl e, st)
               | Inr vals \<Rightarrow>
                   (Inr \<lparr>eigenvectors = embedding_feature_matrix, eigenvalues = vals\<rparr>, st))))"

section \<open>The randomized strategy\<close>

subsection \<open>Probe generation\<close>

text \<open>
  \<open>rand()+1.f\<close> and \<open>(float)RAND_MAX+2.f\<close> are computed in single precision: the
  integer is converted to \<open>float\<close> and the sum is rounded to \<open>float\<close> again. Both
  values are integers, so single precision is modelled on integers: \<open>to_float\<close> rounds
  to the nearest integer with a 24-bit significand, ties to even, and \<open>f32_shift\<close> is the
  number of low bits that do not fit the significand.
\<close>

function f32_shift :: "nat \<Rightarrow> nat" where
  "f32_shift a = (if a < 2 ^ 24 then 0 else Suc (f32_shift (a div 2)))"
  by pat_completeness auto
termination
  by (relation "measure id") auto

definition to_float :: "int \<Rightarrow> int" where
  "to_float r =
     (let a = nat \<bar>r\<bar>;
          e = f32_shift a;
          q = a div 2 ^ e;
          rem = a mod 2 ^ e;
          q' = (if 2 ^ e < 2 * rem \<or> (2 * rem = 2 ^ e \<and> odd q) then q + 1 else q)
      in sgn r * int (q' * 2 ^ e))"

definition float_add :: "int \<Rightarrow> int \<Rightarrow> int" where
  "float_add x y = to_float (x + y)"

text \<open>
  \<open>(DefaultScalarType)(rand()+1.f)/((float)RAND_MAX+2.f)\<close> for the value \<open>r\<close> of
  \<open>rand()\<close>: the quotient of the two single-precision sums, taken in
  \<open>DefaultScalarType\<close>.
\<close>

definition uniform_variate :: "'wm collaborators \<Rightarrow> int \<Rightarrow> DefaultScalarType" where
  "uniform_variate env r =
     s_div (Fin (of_int (float_add (to_float r) 1)))
           (Fin (of_int (float_add (to_float (RAND_MAX env)) 2)))"

text \<open>\<open>sqrt(-2.f*log(v1))\<close> and \<open>2.f*M_PI*v2\<close>\<close>

definition box_muller_len :: "DefaultScalarType \<Rightarrow> DefaultScalarType" where
  "box_muller_len v1 = s_sqrt (s_mul (Fin (- 2)) (s_log v1))"

definition box_muller_angle :: "DefaultScalarType \<Rightarrow> DefaultScalarType" where
  "box_muller_angle v2 = s_mul (s_mul (Fin 2) (Fin pi)) v2"

text \<open>The assignment \<open>M(i,j) = v\<close>.\<close>

definition set_coeff :: "DenseMatrix \<Rightarrow> nat \<Rightarrow> nat \<Rightarrow> DefaultScalarType \<Rightarrow> DenseMatrix" where
  "set_coeff M i j v = M\<lparr>columns := (columns M)[j := (columns M ! j)[i := v]]\<rparr>"

text \<open>The coefficient \<open>M(i,j)\<close>.\<close>

definition coeff :: "DenseMatrix \<Rightarrow> nat \<Rightarrow> nat \<Rightarrow> DefaultScalarType" where
  "coeff M i j = columns M ! j ! i"

text \<open>
  The first inner loop, \<open>for ( ; j+1 < O.cols(); j+= 2)\<close>, on row \<open>i\<close>: the state is the
  column index, the probe matrix and the number of calls of \<open>rand()\<close> so far.
\<close>

function pair_loop ::
  "'wm collaborators \<Rightarrow> nat \<Rightarrow> nat \<Rightarrow> DenseMatrix \<Rightarrow> nat \<Rightarrow> nat \<times> DenseMatrix \<times> nat" where
  "pair_loop env i j Omat k =
     (if j + 1 < cols Omat then
        let v1 = uniform_variate env (rand env k);
            v2 = uniform_variate env (rand env (k + 1));
            len = box_muller_len v1;
            O1 = set_coeff Omat i j (s_mul len (s_cos (box_muller_angle v2)));
            O2 = set_coeff O1 i (j + 1) (s_mul len (s_sin (box_muller_angle v2)))
        in pair_loop env i (j + 2) O2 (k + 2)
      else (j, Omat, k))"
  by pat_completeness auto
termination
  by (relation "measure (\<lambda>(env, i, j, Omat, k). cols Omat - j)") (auto simp: set_coeff_def cols_def)

text \<open>The second inner loop, \<open>for ( ; j < O.cols(); j++)\<close>.\<close>

function leftover_loop ::
  "'wm collaborators \<Rightarrow> nat \<Rightarrow> nat \<Rightarrow> DenseMatrix \<Rightarrow> nat \<Rightarrow> nat \<times> DenseMatrix \<times> nat" where
  "leftover_loop env i j Omat k =
     (if j < cols Omat then
        let v1 = uniform_variate env (rand env k);
            v2 = uniform_variate env (rand env (k + 1));
            len = box_muller_len v1;
            O1 = set_coeff Omat i j (s_mul len (s_cos (box_muller_angle v2)))
        in leftover_loop env i (j + 1) O1 (k + 2)
      else (j, Omat, k))"
  by pat_completeness auto
termination
  by (relation "measure (\<lambda>(env, i, j, Omat, k). cols Omat - j)") (auto simp: set_coeff_def cols_def)

declare pair_loop.simps [simp del] leftover_loop.simps [simp del] f32_shift.simps [simp del]

text \<open>The body of the outer loop: row \<open>i\<close> of the probe matrix.\<close>

definition fill_row ::
  "'wm collaborators \<Rightarrow> DenseMatrix \<times> nat \<Rightarrow> nat \<Rightarrow> DenseMatrix \<times> nat" where
  "fill_row env Ok i =
     (case pair_loop env i 0 (fst Ok) (snd Ok) of
        (j, O1, k1) \<Rightarrow> (case leftover_loop env i j O1 k1 of (j', O2, k2) \<Rightarrow> (O2, k2)))"

text \<open>
  \<open>DenseMatrix O(wm.rows(), target_dimension+skip)\<close> and the loop over its rows. Eigen
  leaves the coefficients of a new matrix uninitialised; the loops overwrite every one of
  them, and the model starts from zeros.
\<close>

definition generate_probe ::
  "'wm collaborators \<Rightarrow> nat \<Rightarrow> nat \<Rightarrow> nat \<Rightarrow> DenseMatrix \<times> nat" where
  "generate_probe env n m k =
     foldl (fill_row env) (\<lparr>rows = n, columns = replicate m (replicate n (Fin 0))\<rparr>, k) [0..<n]"

text \<open>
  The two samples of one Box-Muller draw, whose uniform variates come from the calls
  \<open>k\<close> and \<open>k + 1\<close> of \<open>rand()\<close>.
\<close>

definition cos_sample :: "'wm collaborators \<Rightarrow> nat \<Rightarrow> DefaultScalarType" where
  "cos_sample env k =
     s_mul (box_muller_len (uniform_variate env (rand env k)))
           (s_cos (box_muller_angle (uniform_variate env (rand env (k + 1)))))"

definition sin_sample :: "'wm collaborators \<Rightarrow> nat \<Rightarrow> DefaultScalarType" where
  "sin_sample env k =
     s_mul (box_muller_len (uniform_variate env (rand env k)))
           (s_sin (box_muller_angle (uniform_variate env (rand env (k + 1)))))"

subsection \<open>Orthonormalisation\<close>

text \<open>The body of the loop over \<open>j\<close>: \<open>r = Y.col(i).dot(Y.col(j)); Y.col(i) -= r*Y.col(j)\<close>.\<close>

definition project_out :: "nat \<Rightarrow> DenseVector list \<Rightarrow> nat \<Rightarrow> DenseVector list" where
  "project_out i Y j =
     (let r = dot (Y ! i) (Y ! j) in Y[i := sub_v (Y ! i) (scale_v r (Y ! j))])"

text \<open>\<open>for (int k = i; k<Y.cols(); k++) Y.col(k).setZero();\<close>\<close>

definition zero_from :: "nat \<Rightarrow> DenseVector list \<Rightarrow> DenseVector list" where
  "zero_from i Y = foldl (\<lambda>Y k. Y[k := setZero (Y ! k)]) Y [i..<length Y]"

text \<open>
  The body of the loop over \<open>i\<close>: the projections, the norm, the test against \<open>1e-4\<close>, and
  then \<open>Y.col(i) *= (1.f / norm)\<close>, which is not inside an \<open>else\<close>.
\<close>

definition orthonormalize_column :: "DenseVector list \<Rightarrow> nat \<Rightarrow> DenseVector list" where
  "orthonormalize_column Y i =
     (let Y1 = foldl (project_out i) Y [0..<i];
          norm = norm_v (Y1 ! i);
          Y2 = (if s_less norm (Fin (1 / 10000)) then zero_from i Y1 else Y1)
      in Y2[i := scale_v (s_div (Fin 1) norm) (Y2 ! i)])"

definition orthonormalize :: "DenseVector list \<Rightarrow> DenseVector list" where
  "orthonormalize Y = foldl orthonormalize_column Y [0..<length Y]"

text \<open>
  The loop after its first \<open>t\<close> passes, and the residual of column \<open>i\<close>: the column as
  pass \<open>i\<close> finds it after its projections, whose norm is tested against \<open>1e-4\<close>.
\<close>

definition passes :: "DenseVector list \<Rightarrow> nat \<Rightarrow> DenseVector list" where
  "passes Y t = foldl orthonormalize_column Y [0..<t]"

definition residual :: "DenseVector list \<Rightarrow> nat \<Rightarrow> DenseVector" where
  "residual Y i = foldl (project_out i) (passes Y i) [0..<i] ! i"

text \<open>
  Two predicates for the statements about the orthonormalisation: every coefficient of a
  vector is zero or NaN, and every column of a list has \<open>n\<close> coefficients.
\<close>

definition zero_or_nan :: "DenseVector \<Rightarrow> bool" where
  "zero_or_nan v = list_all (\<lambda>x. x = Fin 0 \<or> x = NaN) v"

definition shaped :: "nat \<Rightarrow> DenseVector list \<Rightarrow> bool" where
  "shaped n Y = list_all (\<lambda>c. length c = n) Y"

subsection \<open>The strategy\<close>

text \<open>\<open>eigen_embedding_impl<..., RANDOMIZED>::embed\<close>\<close>

definition embed_RANDOMIZED ::
  "'wm collaborators \<Rightarrow> 'wm world \<Rightarrow> 32 word \<Rightarrow> 32 word
   \<Rightarrow> (error + EmbeddingResult) \<times> 'wm world" where
  "embed_RANDOMIZED env st target_dimension skip =
     (let wm = weight st;
          Ok = generate_probe env (wm_rows env wm) (unat (target_dimension + skip))
                 (rand_calls st);
          st' = st\<lparr>rand_calls := snd Ok\<rparr>;
          Y0 = operation env wm (fst Ok);
          Y = Y0\<lparr>columns := orthonormalize (columns Y0)\<rparr>;
          B1 = operation env wm Y;
          B = householderQr_solve env Y B1;
          eigenOfB = DefaultDenseSelfAdjointEigenSolver env B
      in (case mat_mul Y (fst eigenOfB) of
            Inl e \<Rightarrow> (Inl e, st')
          | Inr lifted \<Rightarrow>
              (case block lifted 0 (unat skip) (wm_cols env wm) (unat target_dimension) of
                 Inl e \<Rightarrow> (Inl e, st')
               | Inr embedding \<Rightarrow>
                   (Inr \<lparr>eigenvectors = embedding, eigenvalues = snd eigenOfB\<rparr>, st'))))"

text \<open>
  Two local variables of the strategy, for the statements below: the orthonormalised
  \<open>Y\<close> and the solver \<open>eigenOfB\<close> (its eigenvectors and eigenvalues).
\<close>

definition randomized_Y :: "'wm collaborators \<Rightarrow> 'wm world \<Rightarrow> 32 word \<Rightarrow> 32 word \<Rightarrow> DenseMatrix" where
  "randomized_Y env st target_dimension skip =
     (let wm = weight st;
          Ok = generate_probe env (wm_rows env wm) (unat (target_dimension + skip))
                 (rand_calls st);
          Y0 = operation env wm (fst Ok)
      in Y0\<lparr>columns := orthonormalize (columns Y0)\<rparr>)"

definition randomized_eigenOfB ::
  "'wm collaborators \<Rightarrow> 'wm world \<Rightarrow> 32 word \<Rightarrow> 32 word \<Rightarrow> DenseMatrix \<times> DenseVector" where
  "randomized_eigenOfB env st target_dimension skip =
     (let wm = weight st;
          Y = randomized_Y env st target_dimension skip;
          B1 = operation env wm Y;
          B = householderQr_solve env Y B1
      in DefaultDenseSelfAdjointEigenSolver env B)"

section \<open>The dispatch\<close>

text \<open>\<open>eigen_embedding\<close>: the \<open>switch\<close> and the \<open>return EmbeddingResult()\<close> after it.\<close>

fun eigen_embedding ::
  "'wm collaborators \<Rightarrow> TAPKEE_EIGEN_EMBEDDING_METHOD \<Rightarrow> 'wm world \<Rightarrow> 32 word \<Rightarrow> 32 word
   \<Rightarrow> (error + EmbeddingResult) \<times> 'wm world" where
  "eigen_embedding env ARPACK st target_dimension skip =
     embed_ARPACK env st target_dimension skip"
| "eigen_embedding env RANDOMIZED st target_dimension skip =
     embed_RANDOMIZED env st target_dimension skip"
| "eigen_embedding env EIGEN_DENSE_SELFADJOINT_SOLVER st target_dimension skip =
     embed_EIGEN_DENSE_SELFADJOINT_SOLVER env st target_dimension skip"
| "eigen_embedding env (UnknownMethod t) st target_dimension skip =
     (Inr EmbeddingResult_empty, st)"

section \<open>Collaborators for concrete runs\<close>

text \<open>
  Concrete runs need concrete collaborators. The weight matrix is a dense diagonal matrix
  with an ascending diagonal: its eigenvectors are the unit vectors, its eigenvalues the
  diagonal. \<open>diag_solver\<close> is the dense solver on such a matrix, \<open>diag_arpack\<close> the
  sparse solver (the \<open>nev\<close> largest eigenpairs, ascending), \<open>apply_product\<close> the operator
  \<open>wm * M\<close>, and \<open>transpose_solve\<close> the least-squares solution \<open>Y\<^sup>T * B1\<close> of
  \<open>Y * B = B1\<close> for a \<open>Y\<close> with orthonormal columns.
\<close>

definition identity_matrix :: "nat \<Rightarrow> DenseMatrix" where
  "identity_matrix n =
     \<lparr>rows = n, columns = map (\<lambda>j. map (\<lambda>i. if i = j then Fin 1 else Fin 0) [0..<n]) [0..<n]\<rparr>"

definition diagonal_of :: "DenseMatrix \<Rightarrow> DenseVector" where
  "diagonal_of M = map (\<lambda>j. columns M ! j ! j) [0..<rows M]"

definition diag_solver :: "DenseMatrix \<Rightarrow> DenseMatrix \<times> DenseVector" where
  "diag_solver M = (identity_matrix (rows M), diagonal_of M)"

definition diag_arpack :: "DenseMatrix \<Rightarrow> nat \<Rightarrow> DenseMatrix \<times> DenseVector" where
  "diag_arpack M nev =
     (\<lparr>rows = rows M, columns = drop (rows M - nev) (columns (identity_matrix (rows M)))\<rparr>,
      drop (rows M - nev) (diagonal_of M))"

definition apply_product :: "DenseMatrix \<Rightarrow> DenseMatrix \<Rightarrow> DenseMatrix" where
  "apply_product wm M =
     \<lparr>rows = rows wm, columns = map (lin_comb (rows wm) (columns wm)) (columns M)\<rparr>"

definition transpose_solve :: "DenseMatrix \<Rightarrow> DenseMatrix \<Rightarrow> DenseMatrix" where
  "transpose_solve Y B1 =
     \<lparr>rows = cols Y, columns = map (\<lambda>b. map (\<lambda>y. dot y b) (columns Y)) (columns B1)\<rparr>"

text \<open>
  The environment of the concrete runs: ARPACK present, the \<open>RAND_MAX\<close> of glibc, and a
  linear congruential sequence for \<open>rand()\<close>.
\<close>

definition example_env :: "DenseMatrix collaborators" where
  "example_env =
     \<lparr>TAPKEE_NO_ARPACK = False, RAND_MAX = 2147483647, rand = (\<lambda>k. (1103515245 * int k + 12345) mod 2147483648),
      wm_rows = rows, wm_cols = cols, to_dense = (\<lambda>wm. wm), operation = apply_product,
      ArpackGeneralizedSelfAdjointEigenSolver = diag_arpack,
      DefaultDenseSelfAdjointEigenSolver = diag_solver,
      householderQr_solve = transpose_solve\<rparr>"

definition diag4 :: DenseMatrix where
  "diag4 = \<lparr>rows = 4, columns = [[Fin 1, Fin 0, Fin 0, Fin 0], [Fin 0, Fin 2, Fin 0, Fin 0],
                                   [Fin 0, Fin 0, Fin 3, Fin 0], [Fin 0, Fin 0, Fin 0, Fin 4]]\<rparr>"

definition diag2 :: DenseMatrix where
  "diag2 = \<lparr>rows = 2, columns = [[Fin 1, Fin 0], [Fin 0, Fin 2]]\<rparr>"

section \<open>Slicing\<close>

lemma block_whole_columns:
  assumes "well_shaped M" and "startCol + blockCols \<le> cols M"
  shows "block M 0 startCol (rows M) blockCols =
           Inr \<lparr>rows = rows M, columns = take blockCols (drop startCol (columns M))\<rparr>"
proof -
  have "map (\<lambda>c. take (rows M) (drop 0 c)) (take blockCols (drop startCol (columns M)))
        = take blockCols (drop startCol (columns M))"
    using assms(1)
    by (intro map_idI) (auto simp: well_shaped_def list_all_iff dest!: in_set_takeD in_set_dropD)
  then show ?thesis
    using assms(2) by (simp add: block_def)
qed

text \<open>
  C8. When ARPACK is compiled in and the solver returns \<open>target_dimension + skip\<close>
  eigenpairs (an eigenvector matrix with the rows of the weight matrix and that many
  columns, and that many eigenvalues), the sparse-iterative strategy returns the columns
  \<open>[skip, skip + target_dimension)\<close> of the eigenvector matrix and the last
  \<open>target_dimension\<close> eigenvalues, which are the eigenvalues from position \<open>skip\<close> on:
  exactly the first \<open>skip\<close> eigenpairs are dropped, and the eigenvalue at index \<open>k\<close>
  belongs to the eigenvector at index \<open>k\<close>.
\<close>

theorem arpack_slice_aligned:
  assumes "\<not> TAPKEE_NO_ARPACK env"
    and "ArpackGeneralizedSelfAdjointEigenSolver env (weight st) (unat (target_dimension + skip))
           = (E, vals)"
    and "well_shaped E" and "rows E = wm_cols env (weight st)"
    and "cols E = unat target_dimension + unat skip"
    and "length vals = unat target_dimension + unat skip"
  shows "\<exists>res. embed_ARPACK env st target_dimension skip = (Inr res, st)
           \<and> columns (eigenvectors res) = take (unat target_dimension) (drop (unat skip) (columns E))
           \<and> eigenvalues res = drop (unat skip) vals
           \<and> cols (eigenvectors res) = unat target_dimension
           \<and> length (eigenvalues res) = unat target_dimension
           \<and> (\<forall>k < unat target_dimension.
                 columns (eigenvectors res) ! k = columns E ! (unat skip + k)
               \<and> eigenvalues res ! k = vals ! (unat skip + k))"
proof -
  let ?d = "unat target_dimension" and ?s = "unat skip"
  have b: "block E 0 ?s (wm_cols env (weight st)) ?d
             = Inr \<lparr>rows = rows E, columns = take ?d (drop ?s (columns E))\<rparr>"
    using block_whole_columns [of E ?s ?d] assms(3,4,5) by simp
  have t: "tail vals ?d = Inr (drop ?s vals)"
    using assms(6) by (simp add: tail_def)
  have run: "embed_ARPACK env st target_dimension skip =
          (Inr \<lparr>eigenvectors = \<lparr>rows = rows E, columns = take ?d (drop ?s (columns E))\<rparr>,
                eigenvalues = drop ?s vals\<rparr>, st)"
    using assms(1,2) b t by (simp add: embed_ARPACK_def Let_def)
  have len: "length (take ?d (drop ?s (columns E))) = ?d"
    using assms(5) by (simp add: cols_def)
  show ?thesis
    unfolding run using assms(5,6) len by (simp add: cols_def)
qed

theorem arpack_slice_aligned_witness:
  "\<exists>res. embed_ARPACK example_env \<lparr>weight = diag4, rand_calls = 0\<rparr> 2 1
            = (Inr res, \<lparr>weight = diag4, rand_calls = 0\<rparr>)
       \<and> columns (eigenvectors res) = [[Fin 0, Fin 0, Fin 1, Fin 0], [Fin 0, Fin 0, Fin 0, Fin 1]]
       \<and> eigenvalues res = [Fin 3, Fin 4]"
proof -
  let ?E = "\<lparr>rows = 4, columns = [[Fin 0, Fin 1, Fin 0, Fin 0], [Fin 0, Fin 0, Fin 1, Fin 0],
                                  [Fin 0, Fin 0, Fin 0, Fin 1]]\<rparr>"
  let ?vals = "[Fin 2, Fin 3, Fin 4]"
  let ?st = "\<lparr>weight = diag4, rand_calls = 0\<rparr>"
  have h1: "\<not> TAPKEE_NO_ARPACK example_env"
    by (simp add: example_env_def)
  have h2: "ArpackGeneralizedSelfAdjointEigenSolver example_env (weight ?st) (unat (2 + 1 :: 32 word))
              = (?E, ?vals)"
    by (simp add: example_env_def diag_arpack_def diag4_def identity_matrix_def diagonal_of_def
        upt_rec)
  have h3: "well_shaped ?E" by (simp add: well_shaped_def)
  have h4: "rows ?E = wm_cols example_env (weight ?st)"
    by (simp add: example_env_def diag4_def cols_def)
  have h5: "cols ?E = unat (2 :: 32 word) + unat (1 :: 32 word)" by (simp add: cols_def)
  have h6: "length ?vals = unat (2 :: 32 word) + unat (1 :: 32 word)" by simp
  from arpack_slice_aligned [OF h1 h2 h3 h4 h5 h6]
  obtain res where r: "embed_ARPACK example_env ?st 2 1 = (Inr res, ?st)"
    "columns (eigenvectors res) = take (unat (2 :: 32 word)) (drop (unat (1 :: 32 word)) (columns ?E))"
    "eigenvalues res = drop (unat (1 :: 32 word)) ?vals"
    by blast
  show ?thesis
    using r by (intro exI [of _ res]) simp
qed

text \<open>
  The dense strategy takes the columns \<open>[skip, skip + target_dimension)\<close> of the \<open>n\<close>
  eigenvectors, but the last \<open>target_dimension\<close> of the \<open>n\<close> eigenvalues, which are those
  at \<open>[n - target_dimension, n)\<close>.
\<close>

lemma dense_slice:
  assumes "DefaultDenseSelfAdjointEigenSolver env (to_dense env (weight st)) = (E, vals)"
    and "well_shaped E" and "rows E = wm_cols env (weight st)"
    and "unat target_dimension + unat skip \<le> cols E"
    and "length vals = cols E"
  shows "embed_EIGEN_DENSE_SELFADJOINT_SOLVER env st target_dimension skip =
           (Inr \<lparr>eigenvectors = \<lparr>rows = rows E,
                     columns = take (unat target_dimension) (drop (unat skip) (columns E))\<rparr>,
                  eigenvalues = drop (cols E - unat target_dimension) vals\<rparr>, st)"
proof -
  let ?d = "unat target_dimension" and ?s = "unat skip"
  have b: "block E 0 ?s (wm_cols env (weight st)) ?d
             = Inr \<lparr>rows = rows E, columns = take ?d (drop ?s (columns E))\<rparr>"
    using block_whole_columns [of E ?s ?d] assms(2,3,4) by simp
  have t: "tail vals ?d = Inr (drop (cols E - ?d) vals)"
    using assms(4,5) by (simp add: tail_def)
  show ?thesis
    using assms(1) b t by (simp add: embed_EIGEN_DENSE_SELFADJOINT_SOLVER_def Let_def)
qed

text \<open>
  C2. On the 2 by 2 diagonal matrix with diagonal 1, 2, with \<open>target_dimension = 1\<close> and
  \<open>skip = 0\<close>, the dense solver yields the eigenvalues 1, 2 with the unit vectors as
  eigenvectors. The dense strategy returns the eigenvector at position 0, which belongs to
  the eigenvalue 1, together with the eigenvalue 2 of position 1: the returned eigenvalue
  is neither the one at position \<open>skip\<close> nor the one of the returned eigenvector.
\<close>

theorem dense_eigenvalue_misaligned:
  "eigen_embedding example_env EIGEN_DENSE_SELFADJOINT_SOLVER \<lparr>weight = diag2, rand_calls = 0\<rparr> 1 0
     = (Inr \<lparr>eigenvectors = \<lparr>rows = 2, columns = [[Fin 1, Fin 0]]\<rparr>, eigenvalues = [Fin 2]\<rparr>,
        \<lparr>weight = diag2, rand_calls = 0\<rparr>)
   \<and> DefaultDenseSelfAdjointEigenSolver example_env (to_dense example_env diag2)
     = (\<lparr>rows = 2, columns = [[Fin 1, Fin 0], [Fin 0, Fin 1]]\<rparr>, [Fin 1, Fin 2])"
  by (simp add: embed_EIGEN_DENSE_SELFADJOINT_SOLVER_def example_env_def diag_solver_def
      diag2_def identity_matrix_def diagonal_of_def upt_rec block_def tail_def cols_def)

section \<open>The dispatch and the disabled strategy\<close>

text \<open>
  C6, as claimed, fails: in a build without ARPACK the call with the tag \<open>ARPACK\<close> does
  not end in an error; it returns the empty result.
\<close>

theorem no_arpack_not_rejected:
  "fst (eigen_embedding (example_env\<lparr>TAPKEE_NO_ARPACK := True\<rparr>) ARPACK
          \<lparr>weight = diag4, rand_calls = 0\<rparr> 2 1) = Inr EmbeddingResult_empty"
  by (simp add: embed_ARPACK_def)

text \<open>
  C6, amended. In a build without ARPACK, a call with the tag \<open>ARPACK\<close> returns the empty
  \<open>EmbeddingResult\<close> (no eigenvectors, no eigenvalues) for every weight matrix,
  \<open>target_dimension\<close> and \<open>skip\<close>, without an error and without touching the state.
\<close>

theorem no_arpack_returns_empty:
  "TAPKEE_NO_ARPACK env \<Longrightarrow>
     eigen_embedding env ARPACK st target_dimension skip = (Inr EmbeddingResult_empty, st)"
  by (simp add: embed_ARPACK_def)

theorem no_arpack_returns_empty_witness:
  "TAPKEE_NO_ARPACK (example_env\<lparr>TAPKEE_NO_ARPACK := True\<rparr>)
   \<and> eigen_embedding (example_env\<lparr>TAPKEE_NO_ARPACK := True\<rparr>) ARPACK
          \<lparr>weight = diag2, rand_calls = 5\<rparr> 1 0
       = (Inr EmbeddingResult_empty, \<lparr>weight = diag2, rand_calls = 5\<rparr>)"
  using no_arpack_returns_empty [of "example_env\<lparr>TAPKEE_NO_ARPACK := True\<rparr>"
      "\<lparr>weight = diag2, rand_calls = 5\<rparr>" 1 0]
  by simp

text \<open>
  C7, as claimed, fails: a tag outside the three enumerators does not end in an error.
\<close>

theorem unknown_method_not_rejected:
  "fst (eigen_embedding example_env (UnknownMethod 3) \<lparr>weight = diag4, rand_calls = 0\<rparr> 2 1)
     = Inr EmbeddingResult_empty"
  by simp

text \<open>
  C7, amended. For every method tag outside the three enumerators, \<open>eigen_embedding\<close>
  falls through the \<open>switch\<close> and returns the empty \<open>EmbeddingResult\<close>, without an error.
\<close>

theorem unknown_method_returns_empty:
  "eigen_embedding env (UnknownMethod t) st target_dimension skip = (Inr EmbeddingResult_empty, st)"
  by simp

section \<open>The weight matrix\<close>

lemma weight_embed_ARPACK:
  "weight (snd (embed_ARPACK env st target_dimension skip)) = weight st"
  by (simp add: embed_ARPACK_def Let_def split: sum.splits)

lemma weight_embed_dense:
  "weight (snd (embed_EIGEN_DENSE_SELFADJOINT_SOLVER env st target_dimension skip)) = weight st"
  by (simp add: embed_EIGEN_DENSE_SELFADJOINT_SOLVER_def Let_def split: sum.splits)

lemma weight_embed_RANDOMIZED:
  "weight (snd (embed_RANDOMIZED env st target_dimension skip)) = weight st"
  by (simp add: embed_RANDOMIZED_def Let_def split: sum.splits)

text \<open>
  C10. Whatever the method tag, the weight matrix is the same after the call as before:
  the strategies read it (its dimensions, its dense copy, the operator built from it) and
  none writes to it.
\<close>

theorem weight_unchanged:
  "weight (snd (eigen_embedding env tag st target_dimension skip)) = weight st"
  by (cases tag)
     (simp_all add: weight_embed_ARPACK weight_embed_dense weight_embed_RANDOMIZED)

section \<open>The shape of the probe matrix and the calls of the generator\<close>

lemma cols_set_coeff: "cols (set_coeff M i j v) = cols M"
  by (simp add: set_coeff_def cols_def)

lemma rows_set_coeff: "rows (set_coeff M i j v) = rows M"
  by (simp add: set_coeff_def)

lemma pair_loop_shape:
  "cols (fst (snd (pair_loop env i j Omat k))) = cols Omat
   \<and> rows (fst (snd (pair_loop env i j Omat k))) = rows Omat"
proof (induction env i j Omat k rule: pair_loop.induct)
  case (1 env i j Omat k)
  show ?case
  proof (cases "j + 1 < cols Omat")
    case True
    note ih = "1.IH" [OF True refl refl refl refl refl]
    from True show ?thesis
      by (subst (1 2) pair_loop.simps)
         (simp only: if_True Let_def ih cols_set_coeff rows_set_coeff)
  next
    case False
    then show ?thesis by (subst (1 2) pair_loop.simps) simp
  qed
qed

lemma pair_loop_count:
  "fst (pair_loop env i j Omat k) = j + 2 * ((cols Omat - j) div 2)
   \<and> snd (snd (pair_loop env i j Omat k)) = k + 2 * ((cols Omat - j) div 2)"
proof (induction env i j Omat k rule: pair_loop.induct)
  case (1 env i j Omat k)
  show ?case
  proof (cases "j + 1 < cols Omat")
    case True
    note ih = "1.IH" [OF True refl refl refl refl refl]
    from True have a: "(cols Omat - j) div 2 = Suc ((cols Omat - (j + 2)) div 2)"
      by presburger
    have "fst (pair_loop env i j Omat k) = j + 2 + 2 * ((cols Omat - (j + 2)) div 2)
        \<and> snd (snd (pair_loop env i j Omat k)) = k + 2 + 2 * ((cols Omat - (j + 2)) div 2)"
      using True
      by (subst (1 2) pair_loop.simps) (simp only: if_True Let_def ih cols_set_coeff)
    then show ?thesis
      unfolding a by simp
  next
    case False
    then have "(cols Omat - j) div 2 = 0" by auto
    with False show ?thesis by (subst (1 2) pair_loop.simps) simp
  qed
qed

lemma leftover_loop_shape:
  "cols (fst (snd (leftover_loop env i j Omat k))) = cols Omat
   \<and> rows (fst (snd (leftover_loop env i j Omat k))) = rows Omat"
proof (induction env i j Omat k rule: leftover_loop.induct)
  case (1 env i j Omat k)
  show ?case
  proof (cases "j < cols Omat")
    case True
    note ih = "1.IH" [OF True refl refl refl refl]
    from True show ?thesis
      by (subst (1 2) leftover_loop.simps)
         (simp only: if_True Let_def ih cols_set_coeff rows_set_coeff)
  next
    case False
    then show ?thesis by (subst (1 2) leftover_loop.simps) simp
  qed
qed

lemma leftover_loop_count:
  "snd (snd (leftover_loop env i j Omat k)) = k + 2 * (cols Omat - j)"
proof (induction env i j Omat k rule: leftover_loop.induct)
  case (1 env i j Omat k)
  show ?case
  proof (cases "j < cols Omat")
    case True
    note ih = "1.IH" [OF True refl refl refl refl]
    have "snd (snd (leftover_loop env i j Omat k)) = k + 2 + 2 * (cols Omat - (j + 1))"
      using True
      by (subst leftover_loop.simps) (simp only: if_True Let_def ih cols_set_coeff)
    with True show ?thesis by simp
  next
    case False
    then show ?thesis by (subst leftover_loop.simps) simp
  qed
qed

lemma fill_row_shape:
  "cols (fst (fill_row env Ok i)) = cols (fst Ok) \<and> rows (fst (fill_row env Ok i)) = rows (fst Ok)"
proof -
  obtain j O1 k1 where p: "pair_loop env i 0 (fst Ok) (snd Ok) = (j, O1, k1)"
    by (metis prod_cases3)
  obtain j' O2 k2 where l: "leftover_loop env i j O1 k1 = (j', O2, k2)"
    by (metis prod_cases3)
  from pair_loop_shape [of env i 0 "fst Ok" "snd Ok"] p
  have "cols O1 = cols (fst Ok)" "rows O1 = rows (fst Ok)" by simp_all
  moreover from leftover_loop_shape [of env i j O1 k1] l
  have "cols O2 = cols O1" "rows O2 = rows O1" by simp_all
  ultimately show ?thesis by (simp add: fill_row_def p l)
qed

lemma fill_row_count:
  "snd (fill_row env Ok i) = snd Ok + 2 * ((cols (fst Ok) + 1) div 2)"
proof -
  obtain j O1 k1 where p: "pair_loop env i 0 (fst Ok) (snd Ok) = (j, O1, k1)"
    by (metis prod_cases3)
  obtain j' O2 k2 where l: "leftover_loop env i j O1 k1 = (j', O2, k2)"
    by (metis prod_cases3)
  from pair_loop_shape [of env i 0 "fst Ok" "snd Ok"] p
  have c: "cols O1 = cols (fst Ok)" by simp
  from pair_loop_count [of env i 0 "fst Ok" "snd Ok"] p
  have j: "j = 2 * (cols (fst Ok) div 2)" and k1: "k1 = snd Ok + 2 * (cols (fst Ok) div 2)"
    by simp_all
  from leftover_loop_count [of env i j O1 k1] l
  have "k2 = k1 + 2 * (cols O1 - j)" by simp
  with c j k1 have "k2 = snd Ok + 2 * ((cols (fst Ok) + 1) div 2)"
    by presburger
  then show ?thesis by (simp add: fill_row_def p l)
qed

lemma foldl_fill_row:
  "cols (fst (foldl (fill_row env) Ok [0..<n])) = cols (fst Ok)
   \<and> rows (fst (foldl (fill_row env) Ok [0..<n])) = rows (fst Ok)
   \<and> snd (foldl (fill_row env) Ok [0..<n]) = snd Ok + n * (2 * ((cols (fst Ok) + 1) div 2))"
  by (induction n) (simp_all add: fill_row_shape fill_row_count)

lemma generate_probe_shape:
  "cols (fst (generate_probe env n m k)) = m"
  "rows (fst (generate_probe env n m k)) = n"
  "snd (generate_probe env n m k) = k + n * (2 * ((m + 1) div 2))"
  unfolding generate_probe_def using foldl_fill_row [of env "(\<lparr>rows = n, columns = replicate m (replicate n (Fin 0))\<rparr>, k)" n]
  by (simp_all add: cols_def)

section \<open>The randomized strategy runs to the end\<close>

lemma length_foldl_project_out: "length (foldl (project_out i) Y js) = length Y"
  by (induction js arbitrary: Y) (simp_all add: project_out_def Let_def)

lemma length_zero_from_aux: "length (foldl (\<lambda>Y k. Y[k := setZero (Y ! k)]) Y ks) = length Y"
  by (induction ks arbitrary: Y) simp_all

lemma length_zero_from: "length (zero_from i Y) = length Y"
  by (simp add: zero_from_def length_zero_from_aux)

lemma length_orthonormalize_column: "length (orthonormalize_column Y i) = length Y"
  by (simp add: orthonormalize_column_def Let_def length_zero_from length_foldl_project_out)

lemma length_foldl_orthonormalize_column:
  "length (foldl orthonormalize_column Y is) = length Y"
  by (induction "is" arbitrary: Y) (simp_all add: length_orthonormalize_column)

lemma length_orthonormalize: "length (orthonormalize Y) = length Y"
  by (simp add: orthonormalize_def length_foldl_orthonormalize_column)

lemma embed_RANDOMIZED_unfold:
  "embed_RANDOMIZED env st target_dimension skip =
     (let st' = st\<lparr>rand_calls := rand_calls st
                   + wm_rows env (weight st) * (2 * ((unat (target_dimension + skip) + 1) div 2))\<rparr>;
          Y = randomized_Y env st target_dimension skip;
          eigenOfB = randomized_eigenOfB env st target_dimension skip
      in (case mat_mul Y (fst eigenOfB) of
            Inl e \<Rightarrow> (Inl e, st')
          | Inr lifted \<Rightarrow>
              (case block lifted 0 (unat skip) (wm_cols env (weight st)) (unat target_dimension) of
                 Inl e \<Rightarrow> (Inl e, st')
               | Inr embedding \<Rightarrow>
                   (Inr \<lparr>eigenvectors = embedding, eigenvalues = snd eigenOfB\<rparr>, st'))))"
  by (simp add: embed_RANDOMIZED_def randomized_Y_def randomized_eigenOfB_def Let_def
      generate_probe_shape cong: sum.case_cong)

lemma randomized_Y_shape:
  assumes "\<forall>M. rows (operation env (weight st) M) = wm_cols env (weight st)
              \<and> cols (operation env (weight st) M) = cols M"
  shows "rows (randomized_Y env st target_dimension skip) = wm_cols env (weight st)"
    and "cols (randomized_Y env st target_dimension skip) = unat (target_dimension + skip)"
  using assms
  by (simp_all add: randomized_Y_def Let_def cols_def length_orthonormalize generate_probe_shape [unfolded cols_def])

lemma randomized_runs:
  assumes op: "\<forall>M. rows (operation env (weight st) M) = wm_cols env (weight st)
              \<and> cols (operation env (weight st) M) = cols M"
    and qr: "\<forall>Y B1. rows (householderQr_solve env Y B1) = cols Y"
    and eig: "\<forall>B. rows (fst (DefaultDenseSelfAdjointEigenSolver env B)) = rows B
                 \<and> cols (fst (DefaultDenseSelfAdjointEigenSolver env B)) = rows B
                 \<and> length (snd (DefaultDenseSelfAdjointEigenSolver env B)) = rows B"
    and no_wrap: "unat target_dimension + unat skip < 2 ^ 32"
  shows "embed_RANDOMIZED env st target_dimension skip =
     (Inr \<lparr>eigenvectors =
             \<lparr>rows = wm_cols env (weight st),
              columns = map (\<lambda>e. take (wm_cols env (weight st))
                                   (lin_comb (wm_cols env (weight st))
                                      (columns (randomized_Y env st target_dimension skip)) e))
                          (take (unat target_dimension) (drop (unat skip)
                             (columns (fst (randomized_eigenOfB env st target_dimension skip)))))\<rparr>,
           eigenvalues = snd (randomized_eigenOfB env st target_dimension skip)\<rparr>,
      st\<lparr>rand_calls := rand_calls st
            + wm_rows env (weight st) * (2 * ((unat target_dimension + unat skip + 1) div 2))\<rparr>)"
    and "length (snd (randomized_eigenOfB env st target_dimension skip))
           = unat target_dimension + unat skip"
    and "cols (fst (randomized_eigenOfB env st target_dimension skip))
           = unat target_dimension + unat skip"
proof -
  let ?Y = "randomized_Y env st target_dimension skip"
  let ?eig = "randomized_eigenOfB env st target_dimension skip"
  let ?n = "wm_cols env (weight st)"
  have m: "unat (target_dimension + skip) = unat target_dimension + unat skip"
    using no_wrap by (simp add: unat_add_lem [THEN iffD1])
  have Y: "rows ?Y = ?n" "cols ?Y = unat target_dimension + unat skip"
    using randomized_Y_shape [OF op, of target_dimension skip] m by simp_all
  have E: "rows (fst ?eig) = cols ?Y" "cols (fst ?eig) = cols ?Y" "length (snd ?eig) = cols ?Y"
    using qr eig by (simp_all add: randomized_eigenOfB_def Let_def)
  show "length (snd ?eig) = unat target_dimension + unat skip"
    and "cols (fst ?eig) = unat target_dimension + unat skip"
    using E Y by simp_all
  have mm: "mat_mul ?Y (fst ?eig)
          = Inr \<lparr>rows = ?n, columns = map (lin_comb ?n (columns ?Y)) (columns (fst ?eig))\<rparr>"
    using E(1) Y(1) by (simp add: mat_mul_def)
  have bl: "block \<lparr>rows = ?n, columns = map (lin_comb ?n (columns ?Y)) (columns (fst ?eig))\<rparr>
              0 (unat skip) ?n (unat target_dimension)
          = Inr \<lparr>rows = ?n,
                 columns = map (\<lambda>e. take ?n (lin_comb ?n (columns ?Y) e))
                             (take (unat target_dimension) (drop (unat skip) (columns (fst ?eig))))\<rparr>"
    using E(2) Y(2) by (simp add: block_def cols_def take_map drop_map comp_def)
  show "embed_RANDOMIZED env st target_dimension skip =
     (Inr \<lparr>eigenvectors =
             \<lparr>rows = ?n,
              columns = map (\<lambda>e. take ?n (lin_comb ?n (columns ?Y) e))
                          (take (unat target_dimension) (drop (unat skip) (columns (fst ?eig))))\<rparr>,
           eigenvalues = snd ?eig\<rparr>,
      st\<lparr>rand_calls := rand_calls st
            + wm_rows env (weight st) * (2 * ((unat target_dimension + unat skip + 1) div 2))\<rparr>)"
    by (simp add: embed_RANDOMIZED_unfold Let_def mm bl m)
qed

text \<open>The collaborators of the concrete runs keep the shapes.\<close>

lemma example_env_shapes:
  "\<forall>M. rows (operation example_env wm M) = rows wm \<and> cols (operation example_env wm M) = cols M"
  "\<forall>Y B1. rows (householderQr_solve example_env Y B1) = cols Y"
  "\<forall>B. rows (fst (DefaultDenseSelfAdjointEigenSolver example_env B)) = rows B
     \<and> cols (fst (DefaultDenseSelfAdjointEigenSolver example_env B)) = rows B
     \<and> length (snd (DefaultDenseSelfAdjointEigenSolver example_env B)) = rows B"
  by (simp_all add: example_env_def apply_product_def transpose_solve_def diag_solver_def
      identity_matrix_def diagonal_of_def cols_def)

text \<open>
  C1. What the randomized strategy returns, when the operator maps an n by m matrix to
  an n by m matrix, the least-squares solve returns as many rows as \<open>Y\<close> has columns, the
  dense solver returns as many eigenpairs as its matrix has rows, and
  \<open>target_dimension + skip\<close> fits 32 bits: the call succeeds, with \<open>target_dimension\<close>
  eigenvector columns but with all \<open>target_dimension + skip\<close> eigenvalues of \<open>B\<close>, the
  whole vector \<open>eigenOfB.eigenvalues()\<close> and not its last \<open>target_dimension\<close> entries. The
  eigenvector at index \<open>k\<close> is \<open>Y\<close> times the eigenvector \<open>skip + k\<close> of \<open>B\<close>, while the
  eigenvalue at index \<open>k\<close> is the eigenvalue \<open>k\<close> of \<open>B\<close>. The claim of exactly
  \<open>target_dimension\<close> index-aligned eigenvalues fails as soon as \<open>skip > 0\<close>: with
  \<open>target_dimension = 1\<close> and \<open>skip = 1\<close> the result holds one eigenvector and two
  eigenvalues.
\<close>

theorem randomized_eigenvalues_not_sliced:
  assumes "\<forall>M. rows (operation env (weight st) M) = wm_cols env (weight st)
              \<and> cols (operation env (weight st) M) = cols M"
    and "\<forall>Y B1. rows (householderQr_solve env Y B1) = cols Y"
    and "\<forall>B. rows (fst (DefaultDenseSelfAdjointEigenSolver env B)) = rows B
                 \<and> cols (fst (DefaultDenseSelfAdjointEigenSolver env B)) = rows B
                 \<and> length (snd (DefaultDenseSelfAdjointEigenSolver env B)) = rows B"
    and "unat target_dimension + unat skip < 2 ^ 32"
  shows "\<exists>res. fst (embed_RANDOMIZED env st target_dimension skip) = Inr res
           \<and> eigenvalues res = snd (randomized_eigenOfB env st target_dimension skip)
           \<and> length (eigenvalues res) = unat target_dimension + unat skip
           \<and> cols (eigenvectors res) = unat target_dimension
           \<and> (\<forall>k < unat target_dimension.
                 columns (eigenvectors res) ! k =
                   take (wm_cols env (weight st))
                     (lin_comb (wm_cols env (weight st))
                        (columns (randomized_Y env st target_dimension skip))
                        (columns (fst (randomized_eigenOfB env st target_dimension skip))
                           ! (unat skip + k))))"
proof -
  note r = randomized_runs [OF assms]
  have "length (take (unat target_dimension) (drop (unat skip)
          (columns (fst (randomized_eigenOfB env st target_dimension skip))))) = unat target_dimension"
    using r(3) by (simp add: cols_def)
  then show ?thesis
    using r(2) by (simp add: r(1) cols_def)
qed

theorem randomized_eigenvalues_not_sliced_witness:
  "\<exists>res. fst (embed_RANDOMIZED example_env \<lparr>weight = diag2, rand_calls = 0\<rparr> 1 1) = Inr res
       \<and> length (eigenvalues res) = 2 \<and> cols (eigenvectors res) = 1"
proof -
  let ?st = "\<lparr>weight = diag2, rand_calls = 0\<rparr>"
  have n: "wm_cols example_env (weight ?st) = rows diag2"
    by (simp add: example_env_def diag2_def cols_def)
  have h1: "\<forall>M. rows (operation example_env (weight ?st) M) = wm_cols example_env (weight ?st)
              \<and> cols (operation example_env (weight ?st) M) = cols M"
    unfolding n using example_env_shapes(1) [of diag2] by simp
  have h4: "unat (1 :: 32 word) + unat (1 :: 32 word) < 2 ^ 32" by simp
  from randomized_eigenvalues_not_sliced [OF h1 example_env_shapes(2,3) h4]
  obtain res where "fst (embed_RANDOMIZED example_env ?st 1 1) = Inr res"
    "length (eigenvalues res) = unat (1 :: 32 word) + unat (1 :: 32 word)"
    "cols (eigenvectors res) = unat (1 :: 32 word)"
    by blast
  then show ?thesis
    by (intro exI [of _ res]) simp
qed

section \<open>Requests larger than the matrix\<close>




section \<open>Orthonormalisation: shapes, and what follows a degenerate column\<close>

lemma shaped_nth: "shaped n Y \<Longrightarrow> k < length Y \<Longrightarrow> length (Y ! k) = n"
  by (simp add: shaped_def list_all_length)

lemma shaped_update: "shaped n Y \<Longrightarrow> length v = n \<Longrightarrow> shaped n (Y[k := v])"
  unfolding shaped_def list_all_iff by (metis insertE set_update_subset_insert subsetD)

lemma project_out_nth_other: "k \<noteq> i \<Longrightarrow> project_out i Y j ! k = Y ! k"
  by (simp add: project_out_def Let_def)

lemma project_out_nth_same:
  "i < length Y \<Longrightarrow> project_out i Y j ! i = sub_v (Y ! i) (scale_v (dot (Y ! i) (Y ! j)) (Y ! j))"
  by (simp add: project_out_def Let_def)

lemma length_project_out: "length (project_out i Y j) = length Y"
  by (simp add: project_out_def Let_def)

lemma foldl_project_out_other: "k \<noteq> i \<Longrightarrow> foldl (project_out i) Y js ! k = Y ! k"
  by (induction js arbitrary: Y) (simp_all add: project_out_nth_other)

lemma shaped_project_out:
  assumes "shaped n Y" and "i < length Y" and "j < length Y"
  shows "shaped n (project_out i Y j)"
proof -
  have "length (sub_v (Y ! i) (scale_v (dot (Y ! i) (Y ! j)) (Y ! j))) = n"
    using assms by (simp add: sub_v_def scale_v_def shaped_nth)
  then show ?thesis
    using assms(1) by (simp add: project_out_def Let_def shaped_update)
qed

lemma shaped_foldl_project_out:
  "shaped n Y \<Longrightarrow> i < length Y \<Longrightarrow> \<forall>j\<in>set js. j < length Y
     \<Longrightarrow> shaped n (foldl (project_out i) Y js)"
  by (induction js arbitrary: Y) (simp_all add: shaped_project_out length_project_out)

lemma zero_from_aux:
  "n \<le> length Y \<Longrightarrow>
     length (foldl (\<lambda>Y k. Y[k := setZero (Y ! k)]) Y [i..<n]) = length Y
   \<and> (\<forall>k < length Y. foldl (\<lambda>Y k. Y[k := setZero (Y ! k)]) Y [i..<n] ! k
          = (if i \<le> k \<and> k < n then setZero (Y ! k) else Y ! k))"
proof (induction n)
  case 0
  then show ?case by simp
next
  case (Suc n)
  show ?case
  proof (cases "i \<le> n")
    case True
    with Suc show ?thesis
      by (auto simp: nth_list_update less_Suc_eq)
  next
    case False
    then show ?thesis by auto
  qed
qed

lemma zero_from_nth:
  "k < length Y \<Longrightarrow> zero_from i Y ! k = (if i \<le> k then setZero (Y ! k) else Y ! k)"
  using zero_from_aux [of "length Y" Y i] by (simp add: zero_from_def)

lemma shaped_zero_from: "shaped n Y \<Longrightarrow> shaped n (zero_from i Y)"
  by (simp add: shaped_def list_all_length length_zero_from zero_from_nth setZero_def)

lemma shaped_orthonormalize_column:
  assumes "shaped n Y" and "i < length Y"
  shows "shaped n (orthonormalize_column Y i)"
proof -
  let ?Y1 = "foldl (project_out i) Y [0..<i]"
  let ?Y2 = "if s_less (norm_v (?Y1 ! i)) (Fin (1 / 10000)) then zero_from i ?Y1 else ?Y1"
  have s1: "shaped n ?Y1"
    using assms by (intro shaped_foldl_project_out) simp_all
  then have s2: "shaped n ?Y2"
    by (simp add: shaped_zero_from)
  have "length ?Y2 = length Y"
    by (simp add: length_zero_from length_foldl_project_out)
  with s2 assms(2) have "length (scale_v (s_div (Fin 1) (norm_v (?Y1 ! i))) (?Y2 ! i)) = n"
    by (simp add: scale_v_def shaped_nth)
  with s2 show ?thesis
    by (simp add: orthonormalize_column_def Let_def shaped_update)
qed

lemma shaped_foldl_orthonormalize_column:
  "shaped n Y \<Longrightarrow> \<forall>i\<in>set is. i < length Y \<Longrightarrow> shaped n (foldl orthonormalize_column Y is)"
  by (induction "is" arbitrary: Y)
     (simp_all add: shaped_orthonormalize_column length_orthonormalize_column)


lemma foldl_s_add_zero_or_nan:
  "acc = Fin 0 \<or> acc = NaN \<Longrightarrow> zero_or_nan xs
     \<Longrightarrow> foldl s_add acc xs = Fin 0 \<or> foldl s_add acc xs = NaN"
proof (induction xs arbitrary: acc)
  case Nil
  then show ?case by simp
next
  case (Cons x xs)
  from Cons.prems have "s_add acc x = Fin 0 \<or> s_add acc x = NaN"
    by (auto simp: zero_or_nan_def)
  moreover from Cons.prems have "zero_or_nan xs"
    by (simp add: zero_or_nan_def)
  ultimately show ?case
    using Cons.IH by simp
qed

lemma s_mul_zero_or_nan:
  "x = Fin 0 \<or> x = NaN \<Longrightarrow> s_mul x y = Fin 0 \<or> s_mul x y = NaN"
  by (cases y) auto

lemma s_mul_zero_or_nan_right:
  "x = Fin 0 \<or> x = NaN \<Longrightarrow> s_mul y x = Fin 0 \<or> s_mul y x = NaN"
  by (cases y) auto

lemma zero_or_nan_map2_s_mul: "zero_or_nan a \<Longrightarrow> zero_or_nan (map2 s_mul a b)"
proof (induction a arbitrary: b)
  case Nil
  then show ?case by (simp add: zero_or_nan_def)
next
  case (Cons x a)
  show ?case
  proof (cases b)
    case Nil
    then show ?thesis by (simp add: zero_or_nan_def)
  next
    case (Cons y b')
    from Cons.prems have "x = Fin 0 \<or> x = NaN" "zero_or_nan a"
      by (simp_all add: zero_or_nan_def)
    with Cons.IH [of b'] s_mul_zero_or_nan [of x y] show ?thesis
      unfolding Cons by (simp add: zero_or_nan_def)
  qed
qed

lemma dot_zero_or_nan: "zero_or_nan a \<Longrightarrow> dot a b = Fin 0 \<or> dot a b = NaN"
  unfolding dot_def by (intro foldl_s_add_zero_or_nan zero_or_nan_map2_s_mul) simp_all

lemma s_sub_zero_or_nan:
  "x = Fin 0 \<or> x = NaN \<Longrightarrow> y = Fin 0 \<or> y = NaN \<Longrightarrow> s_sub x y = Fin 0 \<or> s_sub x y = NaN"
  by (auto simp: s_sub_def)

lemma zero_or_nan_sub_scale:
  "zero_or_nan a \<Longrightarrow> r = Fin 0 \<or> r = NaN \<Longrightarrow> zero_or_nan (sub_v a (scale_v r b))"
proof (induction a arbitrary: b)
  case Nil
  then show ?case by (simp add: zero_or_nan_def sub_v_def)
next
  case (Cons x a)
  show ?case
  proof (cases b)
    case Nil
    then show ?thesis by (simp add: zero_or_nan_def sub_v_def scale_v_def)
  next
    case (Cons y b')
    from Cons.prems have x: "x = Fin 0 \<or> x = NaN" and a: "zero_or_nan a"
      by (simp_all add: zero_or_nan_def)
    have "s_sub x (s_mul r y) = Fin 0 \<or> s_sub x (s_mul r y) = NaN"
      using x Cons.prems(2) by (intro s_sub_zero_or_nan s_mul_zero_or_nan)
    with Cons.IH [OF a Cons.prems(2), of b'] show ?thesis
      unfolding Cons by (simp add: zero_or_nan_def sub_v_def scale_v_def)
  qed
qed

lemma zero_or_nan_foldl_project_out:
  "i < length Y \<Longrightarrow> zero_or_nan (Y ! i) \<Longrightarrow> zero_or_nan (foldl (project_out i) Y js ! i)"
proof (induction js arbitrary: Y)
  case Nil
  then show ?case by simp
next
  case (Cons j js)
  have "zero_or_nan (project_out i Y j ! i)"
    using Cons.prems
    by (simp add: project_out_nth_same zero_or_nan_sub_scale dot_zero_or_nan)
  with Cons.IH [of "project_out i Y j"] Cons.prems(1) show ?case
    by (simp add: length_project_out)
qed

lemma scale_inf_zero: "scale_v PInf (replicate n (Fin 0)) = replicate n NaN"
  by (simp add: scale_v_def)

lemma scale_nan: "scale_v NaN v = replicate (length v) NaN"
  by (induction v) (simp_all add: scale_v_def)

lemma zero_or_nan_setZero: "zero_or_nan (setZero v)"
  by (simp add: zero_or_nan_def setZero_def list_all_length)


lemma orthonormalize_column_nth_lt:
  "k < i \<Longrightarrow> i < length Y \<Longrightarrow> orthonormalize_column Y i ! k = Y ! k"
  by (simp add: orthonormalize_column_def Let_def zero_from_nth length_foldl_project_out
      foldl_project_out_other)

lemma orthonormalize_column_nth_gt:
  assumes "i < k" and "k < length Y"
  shows "orthonormalize_column Y i ! k =
           (if s_less (norm_v (foldl (project_out i) Y [0..<i] ! i)) (Fin (1 / 10000))
            then setZero (Y ! k) else Y ! k)"
  using assms
  by (simp add: orthonormalize_column_def Let_def zero_from_nth length_foldl_project_out
      foldl_project_out_other)

lemma orthonormalize_column_nth_same:
  assumes "i < length Y"
  shows "orthonormalize_column Y i ! i =
           scale_v (s_div (Fin 1) (norm_v (foldl (project_out i) Y [0..<i] ! i)))
             (if s_less (norm_v (foldl (project_out i) Y [0..<i] ! i)) (Fin (1 / 10000))
              then setZero (foldl (project_out i) Y [0..<i] ! i)
              else foldl (project_out i) Y [0..<i] ! i)"
  using assms
  by (simp add: orthonormalize_column_def Let_def zero_from_nth length_foldl_project_out
      length_zero_from)

lemma norm_zero_or_nan: "zero_or_nan a \<Longrightarrow> norm_v a = Fin 0 \<or> norm_v a = NaN"
  using dot_zero_or_nan [of a a] by (auto simp: norm_v_def)

lemma zero_or_nan_column_becomes_nan:
  assumes "shaped n Y" and "i < length Y" and "zero_or_nan (Y ! i)"
  shows "orthonormalize_column Y i ! i = replicate n NaN"
proof -
  let ?a = "foldl (project_out i) Y [0..<i] ! i"
  have "shaped n (foldl (project_out i) Y [0..<i])"
    using assms(1,2) by (intro shaped_foldl_project_out) simp_all
  then have len: "length ?a = n"
    using assms(2) by (simp add: shaped_nth length_foldl_project_out)
  have "zero_or_nan ?a"
    using assms(2,3) by (rule zero_or_nan_foldl_project_out)
  then consider "norm_v ?a = Fin 0" | "norm_v ?a = NaN"
    using norm_zero_or_nan by blast
  then show ?thesis
  proof cases
    case 1
    then show ?thesis
      using assms(2) len
      by (simp add: orthonormalize_column_nth_same setZero_def scale_inf_zero)
  next
    case 2
    then show ?thesis
      using assms(2) len
      by (simp add: orthonormalize_column_nth_same scale_nan)
  qed
qed


text \<open>After a degenerate column \<open>i\<close>, the state after \<open>t > i\<close> steps.\<close>

lemma after_degenerate_invariant:
  assumes sh: "shaped n Y" and i: "i < length Y"
    and deg: "s_less (norm_v (foldl (project_out i) (foldl orthonormalize_column Y [0..<i]) [0..<i] ! i))
                (Fin (1 / 10000))"
    and t: "i < t" "t \<le> length Y"
  shows "(\<forall>k. i < k \<and> k < t \<longrightarrow> foldl orthonormalize_column Y [0..<t] ! k = replicate n NaN)
       \<and> (\<forall>k. t \<le> k \<and> k < length Y \<longrightarrow> zero_or_nan (foldl orthonormalize_column Y [0..<t] ! k))"
  using t
proof (induction t)
  case 0
  then show ?case by simp
next
  case (Suc t)
  let ?Yt = "foldl orthonormalize_column Y [0..<t]"
  have len: "length ?Yt = length Y"
    by (simp add: length_foldl_orthonormalize_column)
  have sht: "shaped n ?Yt"
    using sh Suc.prems by (intro shaped_foldl_orthonormalize_column) simp_all
  have tl: "t < length Y" using Suc.prems by simp
  show ?case
  proof (cases "t = i")
    case True
    have "\<forall>k. Suc t \<le> k \<and> k < length Y \<longrightarrow> zero_or_nan (orthonormalize_column ?Yt t ! k)"
      using deg True len by (simp add: orthonormalize_column_nth_gt zero_or_nan_setZero)
    with True show ?thesis by auto
  next
    case False
    with Suc.prems have it: "i < t" by simp
    note ih = Suc.IH [OF it] 
    have ih1: "\<forall>k. i < k \<and> k < t \<longrightarrow> ?Yt ! k = replicate n NaN"
      and ih2: "\<forall>k. t \<le> k \<and> k < length Y \<longrightarrow> zero_or_nan (?Yt ! k)"
      using ih tl by simp_all
    have same: "orthonormalize_column ?Yt t ! t = replicate n NaN"
      using sht tl len ih2 by (intro zero_or_nan_column_becomes_nan) simp_all
    have "\<forall>k. i < k \<and> k < Suc t \<longrightarrow> orthonormalize_column ?Yt t ! k = replicate n NaN"
      using ih1 same tl len by (auto simp: less_Suc_eq orthonormalize_column_nth_lt)
    moreover
    have "\<forall>k. Suc t \<le> k \<and> k < length Y \<longrightarrow> zero_or_nan (orthonormalize_column ?Yt t ! k)"
      using ih2 len by (simp add: orthonormalize_column_nth_gt zero_or_nan_setZero)
    ultimately show ?thesis by simp
  qed
qed

lemma columns_after_degenerate:
  assumes "shaped n Y" and "i < k" and "k < length Y"
    and "s_less (norm_v (foldl (project_out i) (foldl orthonormalize_column Y [0..<i]) [0..<i] ! i))
                (Fin (1 / 10000))"
  shows "orthonormalize Y ! k = replicate n NaN"
  using after_degenerate_invariant [OF assms(1) _ assms(4), of "length Y"] assms(2,3)
  by (simp add: orthonormalize_def)

text \<open>The loop pass by pass, and a NaN column met by a projection.\<close>

lemma passes_Suc: "passes Y (Suc t) = orthonormalize_column (passes Y t) t"
  by (simp add: passes_def)

lemma passes_all: "passes Y (length Y) = orthonormalize Y"
  by (simp add: passes_def orthonormalize_def)

lemma length_passes: "length (passes Y t) = length Y"
  by (simp add: passes_def length_foldl_orthonormalize_column)

lemma shaped_passes: "shaped n Y \<Longrightarrow> t \<le> length Y \<Longrightarrow> shaped n (passes Y t)"
  unfolding passes_def by (intro shaped_foldl_orthonormalize_column) simp_all

lemma s_mul_nan_right: "s_mul x NaN = NaN"
  by (cases x) simp_all

lemma s_add_nan_right: "s_add x NaN = NaN"
  by (cases x) simp_all

lemma foldl_s_add_nan: "foldl s_add NaN xs = NaN"
  by (induction xs) simp_all

lemma foldl_s_add_replicate_nan: "0 < m \<Longrightarrow> foldl s_add acc (replicate m NaN) = NaN"
  by (cases m) (simp_all add: s_add_nan_right foldl_s_add_nan)

lemma map2_s_mul_nan_right: "map2 s_mul a (replicate m NaN) = replicate (min (length a) m) NaN"
proof (induction a arbitrary: m)
  case Nil
  then show ?case by simp
next
  case (Cons x a)
  then show ?case by (cases m) (simp_all add: s_mul_nan_right)
qed

lemma map2_s_mul_nan_left: "map2 s_mul (replicate m NaN) b = replicate (min m (length b)) NaN"
proof (induction b arbitrary: m)
  case Nil
  then show ?case by simp
next
  case (Cons y b)
  then show ?case by (cases m) simp_all
qed

lemma dot_nan_right: "length a = n \<Longrightarrow> 0 < n \<Longrightarrow> dot a (replicate n NaN) = NaN"
  by (simp add: dot_def map2_s_mul_nan_right foldl_s_add_replicate_nan)

lemma dot_nan_left: "length b = n \<Longrightarrow> 0 < n \<Longrightarrow> dot (replicate n NaN) b = NaN"
  by (simp add: dot_def map2_s_mul_nan_left foldl_s_add_replicate_nan)

lemma norm_v_nan: "0 < n \<Longrightarrow> norm_v (replicate n NaN) = NaN"
  by (simp add: norm_v_def dot_nan_left)

lemma sub_scale_nan: "length a = n \<Longrightarrow> length b = n \<Longrightarrow> sub_v a (scale_v NaN b) = replicate n NaN"
proof (induction a arbitrary: b n)
  case Nil
  then show ?case by (simp add: sub_v_def)
next
  case (Cons x a)
  then obtain y b' where b: "b = y # b'" by (cases b) auto
  with Cons.prems obtain n' where n: "n = Suc n'" "length a = n'" "length b' = n'" by auto
  from Cons.IH [OF n(2,3)] have "map2 s_sub a (map (s_mul NaN) b') = replicate n' NaN"
    by (simp add: sub_v_def scale_v_def)
  then show ?case
    by (simp add: b n sub_v_def scale_v_def s_sub_def s_add_nan_right)
qed

lemma project_out_on_nan:
  assumes "shaped n Z" and "k < length Z" and "j < length Z" and "0 < n"
    and "Z ! j = replicate n NaN \<or> Z ! k = replicate n NaN"
  shows "project_out k Z j ! k = replicate n NaN"
proof -
  have lk: "length (Z ! k) = n" and lj: "length (Z ! j) = n"
    using assms(1-3) by (simp_all add: shaped_nth)
  have "dot (Z ! k) (Z ! j) = NaN"
  proof (cases "Z ! j = replicate n NaN")
    case True
    from dot_nan_right [OF lk assms(4)] show ?thesis
      by (simp only: True)
  next
    case False
    with assms(5) have k: "Z ! k = replicate n NaN" by simp
    from dot_nan_left [OF lj assms(4)] show ?thesis
      by (simp only: k)
  qed
  then show ?thesis
    using assms(2) lk lj by (simp add: project_out_nth_same sub_scale_nan)
qed

lemma foldl_project_out_keeps_nan:
  "shaped n Z \<Longrightarrow> k < length Z \<Longrightarrow> \<forall>j\<in>set js. j < length Z \<Longrightarrow> 0 < n
     \<Longrightarrow> Z ! k = replicate n NaN \<Longrightarrow> foldl (project_out k) Z js ! k = replicate n NaN"
proof (induction js arbitrary: Z)
  case Nil
  then show ?case by simp
next
  case (Cons j js)
  have "project_out k Z j ! k = replicate n NaN"
    using Cons.prems by (intro project_out_on_nan) simp_all
  moreover have "shaped n (project_out k Z j)"
    using Cons.prems by (intro shaped_project_out) simp_all
  ultimately show ?case
    using Cons.IH [of "project_out k Z j"] Cons.prems by (simp add: length_project_out)
qed

lemma foldl_project_out_meets_nan:
  "shaped n Z \<Longrightarrow> k < length Z \<Longrightarrow> \<forall>j\<in>set js. j < length Z \<Longrightarrow> 0 < n
     \<Longrightarrow> j \<in> set js \<Longrightarrow> j \<noteq> k \<Longrightarrow> Z ! j = replicate n NaN
     \<Longrightarrow> foldl (project_out k) Z js ! k = replicate n NaN"
proof (induction js arbitrary: Z)
  case Nil
  then show ?case by simp
next
  case (Cons j' js)
  have sh: "shaped n (project_out k Z j')"
    using Cons.prems by (intro shaped_project_out) simp_all
  show ?case
  proof (cases "j' = j")
    case True
    have "project_out k Z j' ! k = replicate n NaN"
      using Cons.prems True by (intro project_out_on_nan) simp_all
    with sh Cons.prems show ?thesis
      using foldl_project_out_keeps_nan [of n "project_out k Z j'" k js]
      by (simp add: length_project_out)
  next
    case False
    with Cons.prems have "j \<in> set js" by simp
    moreover have "project_out k Z j' ! j = replicate n NaN"
      using Cons.prems by (simp add: project_out_nth_other)
    ultimately show ?thesis
      using Cons.IH [of "project_out k Z j'"] sh Cons.prems by (simp add: length_project_out)
  qed
qed

lemma residual_norm_nan:
  assumes "shaped n Y" and "k < length Y" and "0 < n" and "j < k"
    and "passes Y k ! j = replicate n NaN"
  shows "norm_v (residual Y k) = NaN"
proof -
  have "foldl (project_out k) (passes Y k) [0..<k] ! k = replicate n NaN"
    using assms shaped_passes [of n Y k]
    by (intro foldl_project_out_meets_nan [where j = j]) (simp_all add: length_passes)
  then show ?thesis
    using assms(3) by (simp add: residual_def norm_v_nan)
qed

section \<open>The probe matrix\<close>

lemma well_shaped_set_coeff:
  assumes "well_shaped M"
  shows "well_shaped (set_coeff M i j v)"
proof (cases "j < length (columns M)")
  case True
  with assms show ?thesis
    by (auto simp: well_shaped_def set_coeff_def list_all_length nth_list_update)
next
  case False
  then have "(columns M)[j := (columns M ! j)[i := v]] = columns M"
    by (simp add: list_update_beyond)
  with assms show ?thesis
    by (simp add: well_shaped_def set_coeff_def)
qed

lemma coeff_set_coeff:
  assumes "well_shaped M" and "i < rows M" and "j < cols M"
  shows "coeff (set_coeff M i j v) i' j' = (if i' = i \<and> j' = j then v else coeff M i' j')"
proof -
  have "length (columns M ! j) = rows M"
    using assms(1,3) by (simp add: well_shaped_def list_all_length cols_def)
  with assms(2,3) show ?thesis
    by (simp add: coeff_def set_coeff_def cols_def nth_list_update)
qed

lemma pair_loop_well_shaped:
  "well_shaped Omat \<Longrightarrow> well_shaped (fst (snd (pair_loop env i j Omat k)))"
proof (induction env i j Omat k rule: pair_loop.induct)
  case (1 env i j Omat k)
  show ?case
  proof (cases "j + 1 < cols Omat")
    case True
    note ih = "1.IH" [OF True refl refl refl refl refl]
    from True "1.prems" show ?thesis
      by (subst pair_loop.simps) (simp only: if_True Let_def ih well_shaped_set_coeff)
  next
    case False
    with "1.prems" show ?thesis by (subst pair_loop.simps) simp
  qed
qed

lemma leftover_loop_well_shaped:
  "well_shaped Omat \<Longrightarrow> well_shaped (fst (snd (leftover_loop env i j Omat k)))"
proof (induction env i j Omat k rule: leftover_loop.induct)
  case (1 env i j Omat k)
  show ?case
  proof (cases "j < cols Omat")
    case True
    note ih = "1.IH" [OF True refl refl refl refl]
    from True "1.prems" show ?thesis
      by (subst leftover_loop.simps) (simp only: if_True Let_def ih well_shaped_set_coeff)
  next
    case False
    with "1.prems" show ?thesis by (subst leftover_loop.simps) simp
  qed
qed

lemma pair_loop_coeff:
  assumes "well_shaped Omat" and "i < rows Omat"
  shows "coeff (fst (snd (pair_loop env i j Omat k))) i' j' =
     (if i' = i \<and> j \<le> j' \<and> j' < j + 2 * ((cols Omat - j) div 2)
      then (if even (j' - j) then cos_sample env (k + (j' - j))
            else sin_sample env (k + (j' - j) - 1))
      else coeff Omat i' j')"
  using assms
proof (induction env i j Omat k rule: pair_loop.induct)
  case (1 env i j Omat k)
  show ?case
  proof (cases "j + 1 < cols Omat")
    case True
    let ?c = "cos_sample env k" and ?s = "sin_sample env k"
    let ?O1 = "set_coeff Omat i j ?c"
    let ?O2 = "set_coeff ?O1 i (j + 1) ?s"
    have ws1: "well_shaped ?O1" and ws2: "well_shaped ?O2"
      using "1.prems"(1) by (simp_all add: well_shaped_set_coeff)
    have r2: "i < rows ?O2" using "1.prems"(2) by (simp add: rows_set_coeff)
    have unfold: "pair_loop env i j Omat k = pair_loop env i (j + 2) ?O2 (k + 2)"
      using True
      by (subst pair_loop.simps) (simp only: if_True Let_def cos_sample_def sin_sample_def)
    have ih: "coeff (fst (snd (pair_loop env i (j + 2) ?O2 (k + 2)))) i' j' =
       (if i' = i \<and> j + 2 \<le> j' \<and> j' < j + 2 + 2 * ((cols ?O2 - (j + 2)) div 2)
        then (if even (j' - (j + 2)) then cos_sample env (k + 2 + (j' - (j + 2)))
              else sin_sample env (k + 2 + (j' - (j + 2)) - 1))
        else coeff ?O2 i' j')"
      using "1.IH" [OF True refl refl refl refl refl, folded cos_sample_def sin_sample_def,
          OF ws2 r2] .
    have c2: "coeff ?O2 i' j' =
        (if i' = i \<and> j' = j + 1 then ?s else if i' = i \<and> j' = j then ?c else coeff Omat i' j')"
      using True "1.prems" ws1
      by (simp add: coeff_set_coeff rows_set_coeff cols_set_coeff)
    from True have a: "(cols Omat - j) div 2 = Suc ((cols Omat - (j + 2)) div 2)"
      by presburger
    show ?thesis
    proof (cases "i' = i \<and> j + 2 \<le> j'")
      case upper: True
      then have e: "even (j' - (j + 2)) = even (j' - j)" "k + 2 + (j' - (j + 2)) = k + (j' - j)"
        by auto
      from upper show ?thesis
        unfolding unfold ih c2 a e by (simp add: cols_set_coeff)
    next
      case lower: False
      then show ?thesis
        unfolding unfold ih c2 a by (auto simp: cols_set_coeff)
    qed
  next
    case False
    then have "(cols Omat - j) div 2 = 0" by auto
    with False show ?thesis by (subst pair_loop.simps) auto
  qed
qed

lemma leftover_loop_coeff:
  assumes "well_shaped Omat" and "i < rows Omat"
  shows "coeff (fst (snd (leftover_loop env i j Omat k))) i' j' =
     (if i' = i \<and> j \<le> j' \<and> j' < cols Omat then cos_sample env (k + 2 * (j' - j))
      else coeff Omat i' j')"
  using assms
proof (induction env i j Omat k rule: leftover_loop.induct)
  case (1 env i j Omat k)
  show ?case
  proof (cases "j < cols Omat")
    case True
    let ?c = "cos_sample env k"
    let ?O1 = "set_coeff Omat i j ?c"
    have ws1: "well_shaped ?O1"
      using "1.prems"(1) by (simp add: well_shaped_set_coeff)
    have r1: "i < rows ?O1" using "1.prems"(2) by (simp add: rows_set_coeff)
    have unfold: "leftover_loop env i j Omat k = leftover_loop env i (j + 1) ?O1 (k + 2)"
      using True
      by (subst leftover_loop.simps) (simp only: if_True Let_def cos_sample_def)
    have ih: "coeff (fst (snd (leftover_loop env i (j + 1) ?O1 (k + 2)))) i' j' =
       (if i' = i \<and> j + 1 \<le> j' \<and> j' < cols ?O1
        then cos_sample env (k + 2 + 2 * (j' - (j + 1)))
        else coeff ?O1 i' j')"
      using "1.IH" [OF True refl refl refl refl, folded cos_sample_def, OF ws1 r1] .
    have c1: "coeff ?O1 i' j' = (if i' = i \<and> j' = j then ?c else coeff Omat i' j')"
      using True "1.prems" by (simp add: coeff_set_coeff)
    show ?thesis
    proof (cases "i' = i \<and> j + 1 \<le> j'")
      case upper: True
      then have e: "k + 2 + 2 * (j' - (j + 1)) = k + 2 * (j' - j)"
        by auto
      from upper show ?thesis
        unfolding unfold ih c1 e by (simp add: cols_set_coeff)
    next
      case lower: False
      with True show ?thesis
        unfolding unfold ih c1 by (auto simp: cols_set_coeff)
    qed
  next
    case False
    then show ?thesis by (subst leftover_loop.simps) auto
  qed
qed


lemma fill_row_well_shaped:
  "well_shaped (fst Ok) \<Longrightarrow> well_shaped (fst (fill_row env Ok i))"
proof -
  assume ws: "well_shaped (fst Ok)"
  obtain j O1 k1 where p: "pair_loop env i 0 (fst Ok) (snd Ok) = (j, O1, k1)"
    by (metis prod_cases3)
  obtain j' O2 k2 where l: "leftover_loop env i j O1 k1 = (j', O2, k2)"
    by (metis prod_cases3)
  from pair_loop_well_shaped [OF ws, of env i 0 "snd Ok"] p have "well_shaped O1" by simp
  from leftover_loop_well_shaped [OF this, of env i j k1] l have "well_shaped O2" by simp
  then show ?thesis by (simp add: fill_row_def p l)
qed

lemma fill_row_coeff:
  assumes ws: "well_shaped (fst Ok)" and i: "i < rows (fst Ok)" and j': "j' < cols (fst Ok)"
  shows "coeff (fst (fill_row env Ok i)) i' j' =
     (if i' = i
      then (if even j' then cos_sample env (snd Ok + j') else sin_sample env (snd Ok + j' - 1))
      else coeff (fst Ok) i' j')"
proof -
  let ?m = "cols (fst Ok)"
  obtain j O1 k1 where p: "pair_loop env i 0 (fst Ok) (snd Ok) = (j, O1, k1)"
    by (metis prod_cases3)
  obtain j2 O2 k2 where l: "leftover_loop env i j O1 k1 = (j2, O2, k2)"
    by (metis prod_cases3)
  from pair_loop_count [of env i 0 "fst Ok" "snd Ok"] p
  have j: "j = 2 * (?m div 2)" and k1: "k1 = snd Ok + 2 * (?m div 2)"
    by simp_all
  from pair_loop_shape [of env i 0 "fst Ok" "snd Ok"] p
  have c1: "cols O1 = ?m" and r1: "rows O1 = rows (fst Ok)" by simp_all
  from pair_loop_well_shaped [OF ws, of env i 0 "snd Ok"] p have ws1: "well_shaped O1" by simp
  from pair_loop_coeff [OF ws i, of env 0 "snd Ok" i' j'] p
  have pc: "coeff O1 i' j' =
     (if i' = i \<and> j' < 2 * (?m div 2)
      then (if even j' then cos_sample env (snd Ok + j') else sin_sample env (snd Ok + j' - 1))
      else coeff (fst Ok) i' j')"
    by simp
  from leftover_loop_coeff [OF ws1, of i env j k1 i' j'] i r1 l c1
  have lc: "coeff O2 i' j' =
     (if i' = i \<and> j \<le> j' \<and> j' < ?m then cos_sample env (k1 + 2 * (j' - j)) else coeff O1 i' j')"
    by simp
  have res: "fst (fill_row env Ok i) = O2" by (simp add: fill_row_def p l)
  show ?thesis
  proof (cases "i' = i \<and> j \<le> j'")
    case True
    with j' j have "j' = j" by presburger
    with True j k1 j' show ?thesis
      unfolding res lc by simp
  next
    case False
    with j j' show ?thesis
      unfolding res lc pc by auto
  qed
qed

lemma foldl_fill_row_well_shaped:
  "well_shaped (fst Ok) \<Longrightarrow> well_shaped (fst (foldl (fill_row env) Ok [0..<t]))"
  by (induction t) (simp_all add: fill_row_well_shaped)

lemma foldl_fill_row_coeff:
  assumes ws: "well_shaped (fst Ok)" and t: "t \<le> rows (fst Ok)" and j: "j < cols (fst Ok)"
  shows "coeff (fst (foldl (fill_row env) Ok [0..<t])) i j =
     (if i < t
      then (if even j
            then cos_sample env (snd Ok + i * (2 * ((cols (fst Ok) + 1) div 2)) + j)
            else sin_sample env (snd Ok + i * (2 * ((cols (fst Ok) + 1) div 2)) + j - 1))
      else coeff (fst Ok) i j)"
  using t
proof (induction t)
  case 0
  then show ?case by simp
next
  case (Suc t)
  let ?S = "foldl (fill_row env) Ok [0..<t]"
  note sh = foldl_fill_row [of env Ok t]
  have ws': "well_shaped (fst ?S)" using ws by (rule foldl_fill_row_well_shaped)
  have t': "t < rows (fst ?S)" using Suc.prems sh by simp
  have j': "j < cols (fst ?S)" using j sh by simp
  have ih: "coeff (fst ?S) i j =
     (if i < t
      then (if even j
            then cos_sample env (snd Ok + i * (2 * ((cols (fst Ok) + 1) div 2)) + j)
            else sin_sample env (snd Ok + i * (2 * ((cols (fst Ok) + 1) div 2)) + j - 1))
      else coeff (fst Ok) i j)"
    using Suc by simp
  have "coeff (fst (fill_row env ?S t)) i j =
     (if i = t
      then (if even j then cos_sample env (snd ?S + j) else sin_sample env (snd ?S + j - 1))
      else coeff (fst ?S) i j)"
    using ws' t' j' by (rule fill_row_coeff)
  with ih sh show ?case
    by (auto simp: less_Suc_eq)
qed

text \<open>
  Every coefficient of the probe matrix: row \<open>i\<close> uses the calls of \<open>rand()\<close> from
  \<open>k + i * 2 * \<lceil>m / 2\<rceil>\<close> on, two for each pair of columns; an even column takes the
  cosine of its draw and the odd column after it the sine of the same draw, so that an
  odd last column takes the cosine of a draw whose sine is not used.
\<close>

lemma probe_coefficients:
  assumes "i < n" and "j < m"
  shows "coeff (fst (generate_probe env n m k)) i j =
     (if even j then cos_sample env (k + i * (2 * ((m + 1) div 2)) + j)
      else sin_sample env (k + i * (2 * ((m + 1) div 2)) + j - 1))"
proof -
  let ?O0 = "\<lparr>rows = n, columns = replicate m (replicate n (Fin 0))\<rparr>"
  have "well_shaped (fst (?O0, k))" by (simp add: well_shaped_def list_all_length)
  moreover have "n \<le> rows (fst (?O0, k))" by simp
  moreover have "j < cols (fst (?O0, k))" using assms(2) by (simp add: cols_def)
  ultimately have "coeff (fst (foldl (fill_row env) (?O0, k) [0..<n])) i j =
     (if i < n
      then (if even j
            then cos_sample env (snd (?O0, k) + i * (2 * ((cols (fst (?O0, k)) + 1) div 2)) + j)
            else sin_sample env (snd (?O0, k) + i * (2 * ((cols (fst (?O0, k)) + 1) div 2)) + j - 1))
      else coeff (fst (?O0, k)) i j)"
    by (rule foldl_fill_row_coeff)
  with assms(1) show ?thesis
    by (simp add: generate_probe_def cols_def)
qed

text \<open>
  A 2 by 3 probe matrix: in each row the first two columns take the cosine and the sine
  of one draw, the third column the cosine of a second draw, whose sine is not used; the
  rows are filled one after the other.
\<close>

lemma generate_probe_2_3:
  "generate_probe env 2 3 k =
     (\<lparr>rows = 2,
       columns = [[cos_sample env k, cos_sample env (k + 4)],
                  [sin_sample env k, sin_sample env (k + 4)],
                  [cos_sample env (k + 2), cos_sample env (k + 6)]]\<rparr>, k + 8)"
  by (simp add: generate_probe_def fill_row_def pair_loop.simps leftover_loop.simps upt_rec
       set_coeff_def cols_def Let_def cos_sample_def sin_sample_def eval_nat_numeral)

text \<open>Single precision at \<open>RAND_MAX = 2^31 - 1\<close>, the value of glibc.\<close>

lemma f32_shift_values:
  "f32_shift 2147483647 = 7" "f32_shift 2147483649 = 8" "f32_shift 2147483650 = 8"
  by (simp_all add: f32_shift.simps)

lemma to_float_values:
  "to_float 2147483647 = 2147483648" "to_float 2147483649 = 2147483648"
  "to_float 2147483650 = 2147483648"
  by (simp_all add: to_float_def f32_shift_values Let_def)

text \<open>
  C9. With \<open>RAND_MAX = 2147483647\<close> and \<open>rand()\<close> returning \<open>2147483647\<close>, the
  single-precision sums \<open>rand()+1.f\<close> and \<open>(float)RAND_MAX+2.f\<close> both round to
  \<open>2^31\<close>, so the uniform variate is exactly 1: it is not inside the open interval, its
  logarithm is 0 and not negative, and \<open>len\<close> is 0.
\<close>

theorem uniform_variate_reaches_one:
  "uniform_variate (env\<lparr>RAND_MAX := 2147483647\<rparr>) 2147483647 = Fin 1
   \<and> s_log (uniform_variate (env\<lparr>RAND_MAX := 2147483647\<rparr>) 2147483647) = Fin 0
   \<and> box_muller_len (uniform_variate (env\<lparr>RAND_MAX := 2147483647\<rparr>) 2147483647) = Fin 0"
  by (simp add: uniform_variate_def float_add_def to_float_values box_muller_len_def)

text \<open>
  The lower end is safe: for every \<open>r \<ge> 0\<close> the variate is a positive finite number, so
  the logarithm never sees 0.
\<close>

lemma f32_shift_le: "1 \<le> a \<Longrightarrow> 2 ^ f32_shift a \<le> a"
proof (induction a rule: f32_shift.induct)
  case (1 a)
  show ?case
  proof (cases "a < 2 ^ 24")
    case True
    with "1.prems" show ?thesis by (subst f32_shift.simps) simp
  next
    case False
    then have "1 \<le> a div 2" by simp
    with "1.IH" False have "2 ^ f32_shift (a div 2) \<le> a div 2" by simp
    then have "2 * 2 ^ f32_shift (a div 2) \<le> a" by simp
    with False show ?thesis by (subst f32_shift.simps) simp
  qed
qed

lemma to_float_pos:
  assumes "1 \<le> r"
  shows "1 \<le> to_float r"
proof -
  define a where "a = nat \<bar>r\<bar>"
  define e where "e = f32_shift a"
  define q' where "q' = (if 2 ^ e < 2 * (a mod 2 ^ e) \<or> (2 * (a mod 2 ^ e) = 2 ^ e \<and> odd (a div 2 ^ e))
                         then a div 2 ^ e + 1 else a div 2 ^ e)"
  have "1 \<le> a" using assms by (simp add: a_def)
  then have "2 ^ e \<le> a" unfolding e_def by (rule f32_shift_le)
  then have "0 < a div 2 ^ e"
    by (simp add: div_greater_zero_iff)
  then have "0 < q'" by (simp add: q'_def)
  then have "0 < q' * 2 ^ e" by simp
  then have "1 \<le> int (q' * 2 ^ e)" by linarith
  moreover have "to_float r = int (q' * 2 ^ e)"
    using assms by (simp add: to_float_def Let_def a_def e_def q'_def)
  ultimately show ?thesis by (simp only:)
qed

lemma to_float_nonneg: "0 \<le> r \<Longrightarrow> 0 \<le> to_float r"
  by (simp add: to_float_def Let_def sgn_if)

lemma uniform_variate_positive:
  assumes "0 \<le> r" and "0 \<le> RAND_MAX env"
  shows "\<exists>x. uniform_variate env r = Fin x \<and> 0 < x"
proof -
  have "1 \<le> float_add (to_float r) 1"
    unfolding float_add_def using to_float_nonneg [OF assms(1)] by (intro to_float_pos) simp
  moreover have "1 \<le> float_add (to_float (RAND_MAX env)) 2"
    unfolding float_add_def using to_float_nonneg [OF assms(2)] by (intro to_float_pos) simp
  ultimately show ?thesis
    by (simp add: uniform_variate_def)
qed

section \<open>Degenerate columns\<close>

text \<open>
  Three columns that are multiples of one vector, as the product of a weight matrix of
  rank 1 with a probe matrix gives them: the residual of the second column is exactly
  zero, the test against \<open>1e-4\<close> zeroes the second and the third column, the scaling by
  \<open>1/0\<close> turns the second into NaN, and the projection on it turns the third into NaN
  as well.
\<close>

lemma orthonormalize_rank_deficient:
  "orthonormalize [[Fin 1, Fin 0, Fin 0], [Fin 2, Fin 0, Fin 0], [Fin 3, Fin 0, Fin 0]]
   = [[Fin 1, Fin 0, Fin 0], [NaN, NaN, NaN], [NaN, NaN, NaN]]"
  by (simp add: orthonormalize_def orthonormalize_column_def project_out_def zero_from_def
      norm_v_def dot_def scale_v_def sub_v_def s_sub_def setZero_def upt_rec Let_def)

text \<open>
  C3. If the residual norm of column \<open>i\<close> falls below \<open>1e-4\<close>, every column after \<open>i\<close>
  holds NaN in each of its \<open>n\<close> coefficients at the end of the loop, not zero: the loop
  does not stop at \<open>i\<close>, and each later column is projected, tested and scaled by
  \<open>1/norm\<close> with a norm that is zero or NaN.
\<close>

theorem columns_after_degenerate_are_nan:
  assumes "shaped n Y" and "i < k" and "k < length Y"
    and "s_less (norm_v (foldl (project_out i) (foldl orthonormalize_column Y [0..<i]) [0..<i] ! i))
                (Fin (1 / 10000))"
  shows "orthonormalize Y ! k = replicate n NaN"
  using assms by (rule columns_after_degenerate)

theorem columns_after_degenerate_are_nan_witness:
  "orthonormalize [[Fin 1, Fin 0, Fin 0], [Fin 2, Fin 0, Fin 0], [Fin 3, Fin 0, Fin 0]] ! 2
     = [NaN, NaN, NaN]"
proof -
  let ?Y = "[[Fin 1, Fin 0, Fin 0], [Fin 2, Fin 0, Fin 0], [Fin 3, Fin 0, Fin 0]]"
  have h1: "shaped 3 ?Y" by (simp add: shaped_def)
  have h2: "(1::nat) < 2" by simp
  have h3: "(2::nat) < length ?Y" by simp
  have h4: "s_less (norm_v (foldl (project_out 1) (foldl orthonormalize_column ?Y [0..<1]) [0..<1] ! 1))
                (Fin (1 / 10000))"
    by (simp add: orthonormalize_column_def project_out_def
      norm_v_def dot_def scale_v_def sub_v_def s_sub_def Let_def)
  from columns_after_degenerate_are_nan [OF h1 h2 h3 h4] show ?thesis
    by (simp add: numeral_3_eq_3)
qed

text \<open>
  C4, as claimed, fails in its aside: a column that follows a zeroed column need not have
  a residual norm of exactly zero. In the three columns above, the pass over column 1
  zeroes columns 1 and 2 and leaves column 1 as NaN; the residual of column 2, projected
  on column 1, has the norm NaN.
\<close>

theorem zeroed_column_residual_norm_nan:
  "s_less (norm_v (foldl (project_out 1)
             (foldl orthonormalize_column
                [[Fin 1, Fin 0, Fin 0], [Fin 2, Fin 0, Fin 0], [Fin 3, Fin 0, Fin 0]] [0..<1])
             [0..<1] ! 1)) (Fin (1 / 10000))
   \<and> foldl orthonormalize_column
         [[Fin 1, Fin 0, Fin 0], [Fin 2, Fin 0, Fin 0], [Fin 3, Fin 0, Fin 0]] [0..<2] ! 2
       = [Fin 0, Fin 0, Fin 0]
   \<and> norm_v (foldl (project_out 2)
             (foldl orthonormalize_column
                [[Fin 1, Fin 0, Fin 0], [Fin 2, Fin 0, Fin 0], [Fin 3, Fin 0, Fin 0]] [0..<2])
             [0..<2] ! 2) = NaN"
  by (simp add: orthonormalize_column_def project_out_def zero_from_def
      norm_v_def dot_def scale_v_def sub_v_def s_sub_def setZero_def upt_rec Let_def)

text \<open>
  C4, amended. In the loop over a matrix with \<open>n\<close> rows, pass \<open>i\<close> scales column \<open>i\<close> by
  \<open>1/norm\<close> in every case, also when the test against \<open>1e-4\<close> has just zeroed the
  columns from \<open>i\<close> on; when the residual norm is exactly zero the factor is infinite and
  every coefficient of the column becomes NaN. When the norm of column \<open>i\<close> falls below
  \<open>1e-4\<close>, every later column \<open>k\<close> is zero after pass \<open>i\<close>; in its own pass its residual
  norm is exactly zero or NaN, and (when \<open>n > 0\<close>) it is NaN as soon as an earlier
  column holds NaN, which is the case for every \<open>k > i + 1\<close>; after its own pass and at
  the end of the loop column \<open>k\<close> holds NaN in every coefficient.
\<close>

theorem scaling_is_unconditional:
  assumes "shaped n Y" and "i < length Y"
  shows "passes Y (Suc i) ! i =
            scale_v (s_div (Fin 1) (norm_v (residual Y i)))
              (if s_less (norm_v (residual Y i)) (Fin (1 / 10000))
               then replicate n (Fin 0) else residual Y i)
       \<and> (norm_v (residual Y i) = Fin 0 \<longrightarrow> passes Y (Suc i) ! i = replicate n NaN)
       \<and> (s_less (norm_v (residual Y i)) (Fin (1 / 10000)) \<longrightarrow>
            (\<forall>k. i < k \<and> k < length Y \<longrightarrow>
                 passes Y (Suc i) ! k = replicate n (Fin 0)
               \<and> (norm_v (residual Y k) = Fin 0 \<or> norm_v (residual Y k) = NaN)
               \<and> (0 < n \<and> (\<exists>j<k. passes Y k ! j = replicate n NaN) \<longrightarrow>
                    norm_v (residual Y k) = NaN)
               \<and> (0 < n \<and> i + 1 < k \<longrightarrow> norm_v (residual Y k) = NaN)
               \<and> passes Y (Suc k) ! k = replicate n NaN
               \<and> orthonormalize Y ! k = replicate n NaN))"
proof -
  let ?Z = "passes Y i"
  have shZ: "shaped n ?Z" using assms by (intro shaped_passes) simp_all
  have iZ: "i < length ?Z" using assms(2) by (simp add: length_passes)
  have "shaped n (foldl (project_out i) ?Z [0..<i])"
    using shZ iZ by (intro shaped_foldl_project_out) simp_all
  then have len: "length (residual Y i) = n"
    using iZ by (simp add: residual_def shaped_nth length_foldl_project_out)
  have 1: "passes Y (Suc i) ! i =
             scale_v (s_div (Fin 1) (norm_v (residual Y i)))
               (if s_less (norm_v (residual Y i)) (Fin (1 / 10000))
                then replicate n (Fin 0) else residual Y i)"
    using orthonormalize_column_nth_same [OF iZ] len
    by (simp add: passes_Suc residual_def setZero_def)
  have 2: "norm_v (residual Y i) = Fin 0 \<longrightarrow> passes Y (Suc i) ! i = replicate n NaN"
    unfolding 1 by (simp add: scale_inf_zero)
  have 3: "\<forall>k. i < k \<and> k < length Y \<longrightarrow>
                 passes Y (Suc i) ! k = replicate n (Fin 0)
               \<and> (norm_v (residual Y k) = Fin 0 \<or> norm_v (residual Y k) = NaN)
               \<and> (0 < n \<and> (\<exists>j<k. passes Y k ! j = replicate n NaN) \<longrightarrow>
                    norm_v (residual Y k) = NaN)
               \<and> (0 < n \<and> i + 1 < k \<longrightarrow> norm_v (residual Y k) = NaN)
               \<and> passes Y (Suc k) ! k = replicate n NaN
               \<and> orthonormalize Y ! k = replicate n NaN"
    if deg: "s_less (norm_v (residual Y i)) (Fin (1 / 10000))"
  proof (intro allI impI)
    fix k
    assume "i < k \<and> k < length Y"
    then have ik: "i < k" and k: "k < length Y" by simp_all
    have deg': "s_less (norm_v (foldl (project_out i) (foldl orthonormalize_column Y [0..<i])
                  [0..<i] ! i)) (Fin (1 / 10000))"
      using deg by (simp add: residual_def passes_def)
    have kZ: "k < length ?Z" using k by (simp add: length_passes)
    have "length (?Z ! k) = n" using shZ kZ by (rule shaped_nth)
    then have a: "passes Y (Suc i) ! k = replicate n (Fin 0)"
      using orthonormalize_column_nth_gt [OF ik kZ] deg
      by (simp add: passes_Suc residual_def setZero_def)
    from after_degenerate_invariant [OF assms deg' ik] k
    have nan_before: "\<forall>k'. i < k' \<and> k' < k \<longrightarrow> passes Y k ! k' = replicate n NaN"
      and zn: "zero_or_nan (passes Y k ! k)"
      by (simp_all add: passes_def)
    have shK: "shaped n (passes Y k)" using assms(1) k by (intro shaped_passes) simp_all
    have kK: "k < length (passes Y k)" using k by (simp add: length_passes)
    have "zero_or_nan (residual Y k)"
      unfolding residual_def using kK zn by (rule zero_or_nan_foldl_project_out)
    then have b: "norm_v (residual Y k) = Fin 0 \<or> norm_v (residual Y k) = NaN"
      by (rule norm_zero_or_nan)
    have c: "0 < n \<and> (\<exists>j<k. passes Y k ! j = replicate n NaN) \<longrightarrow> norm_v (residual Y k) = NaN"
      using residual_norm_nan [OF assms(1) k] by blast
    have d: "0 < n \<and> i + 1 < k \<longrightarrow> norm_v (residual Y k) = NaN"
    proof
      assume h: "0 < n \<and> i + 1 < k"
      then have "passes Y k ! (i + 1) = replicate n NaN"
        using nan_before by simp
      with h c show "norm_v (residual Y k) = NaN" by blast
    qed
    have e: "passes Y (Suc k) ! k = replicate n NaN"
      unfolding passes_Suc using shK kK zn by (rule zero_or_nan_column_becomes_nan)
    have f: "orthonormalize Y ! k = replicate n NaN"
      using assms(1) ik k deg' by (rule columns_after_degenerate)
    from a b c d e f
    show "passes Y (Suc i) ! k = replicate n (Fin 0)
        \<and> (norm_v (residual Y k) = Fin 0 \<or> norm_v (residual Y k) = NaN)
        \<and> (0 < n \<and> (\<exists>j<k. passes Y k ! j = replicate n NaN) \<longrightarrow>
              norm_v (residual Y k) = NaN)
        \<and> (0 < n \<and> i + 1 < k \<longrightarrow> norm_v (residual Y k) = NaN)
        \<and> passes Y (Suc k) ! k = replicate n NaN
        \<and> orthonormalize Y ! k = replicate n NaN"
      by (intro conjI)
  qed
  from 3 have third: "s_less (norm_v (residual Y i)) (Fin (1 / 10000)) \<longrightarrow>
            (\<forall>k. i < k \<and> k < length Y \<longrightarrow>
                 passes Y (Suc i) ! k = replicate n (Fin 0)
               \<and> (norm_v (residual Y k) = Fin 0 \<or> norm_v (residual Y k) = NaN)
               \<and> (0 < n \<and> (\<exists>j<k. passes Y k ! j = replicate n NaN) \<longrightarrow>
                    norm_v (residual Y k) = NaN)
               \<and> (0 < n \<and> i + 1 < k \<longrightarrow> norm_v (residual Y k) = NaN)
               \<and> passes Y (Suc k) ! k = replicate n NaN
               \<and> orthonormalize Y ! k = replicate n NaN)"
    by (rule impI)
  from 1 2 third show ?thesis by (intro conjI)
qed

theorem scaling_is_unconditional_witness:
  "s_less (norm_v (residual [[Fin 1, Fin 0, Fin 0], [Fin 2, Fin 0, Fin 0], [Fin 3, Fin 0, Fin 0]] 1))
      (Fin (1 / 10000))
   \<and> passes [[Fin 1, Fin 0, Fin 0], [Fin 2, Fin 0, Fin 0], [Fin 3, Fin 0, Fin 0]] 2 ! 1
       = [NaN, NaN, NaN]
   \<and> passes [[Fin 1, Fin 0, Fin 0], [Fin 2, Fin 0, Fin 0], [Fin 3, Fin 0, Fin 0]] 2 ! 2
       = [Fin 0, Fin 0, Fin 0]
   \<and> norm_v (residual [[Fin 1, Fin 0, Fin 0], [Fin 2, Fin 0, Fin 0], [Fin 3, Fin 0, Fin 0]] 2) = NaN
   \<and> orthonormalize [[Fin 1, Fin 0, Fin 0], [Fin 2, Fin 0, Fin 0], [Fin 3, Fin 0, Fin 0]] ! 2
       = [NaN, NaN, NaN]"
proof -
  let ?Y = "[[Fin 1, Fin 0, Fin 0], [Fin 2, Fin 0, Fin 0], [Fin 3, Fin 0, Fin 0]]"
  have h1: "shaped 3 ?Y" by (simp add: shaped_def)
  have h2: "(1::nat) < length ?Y" by simp
  have z: "norm_v (residual ?Y 1) = Fin 0"
    by (simp add: residual_def passes_def orthonormalize_column_def project_out_def
      norm_v_def dot_def scale_v_def sub_v_def s_sub_def Let_def)
  then have deg: "s_less (norm_v (residual ?Y 1)) (Fin (1 / 10000))" by simp
  have r3: "replicate 3 x = [x, x, x]" for x :: DefaultScalarType
    by (simp add: numeral_3_eq_3)
  note t = scaling_is_unconditional [OF h1 h2]
  from t z have c1: "passes ?Y (Suc 1) ! 1 = replicate 3 NaN" by blast
  from t deg have k2: "passes ?Y (Suc 1) ! 2 = replicate 3 (Fin 0)
      \<and> ((0::nat) < 3 \<and> (\<exists>j<2. passes ?Y 2 ! j = replicate 3 NaN) \<longrightarrow> norm_v (residual ?Y 2) = NaN)
      \<and> orthonormalize ?Y ! 2 = replicate 3 NaN"
    by simp
  have s: "Suc 1 = 2" by simp
  from c1 have c1': "passes ?Y 2 ! 1 = replicate 3 NaN" unfolding s .
  then have "\<exists>j<2. passes ?Y 2 ! j = replicate 3 NaN" by (intro exI [of _ 1]) simp
  with k2 have n2: "norm_v (residual ?Y 2) = NaN" by simp
  from k2 have c2: "passes ?Y 2 ! 2 = replicate 3 (Fin 0)" unfolding s by simp
  from k2 have c3: "orthonormalize ?Y ! 2 = replicate 3 NaN" by simp
  from deg c1' c2 n2 c3 show ?thesis
    unfolding r3 by (intro conjI)
qed

end
